theory Spec2Isabelle
  imports Complex_Main "HOL-Library.Word"
begin

section \<open>Patch accumulation and its direct gradients (direct\_conv notebook)\<close>

text \<open>
  The notebook places small patches \<open>sed \<otimes> morph\<close> into a larger multi-band image and
  differentiates a squared-error loss through that placement by hand. This theory embeds
  the functions of the ``Direct gradients'' cell and \<open>build_scene\<close>.

  Conventions of the embedding:
  \<^item> numpy's float64 values are idealised as \<^typ>\<open>real\<close> numbers, so sums are exact and
    their order does not matter;
  \<^item> Python integers are \<^typ>\<open>int\<close>, \<open>np.int64\<close> values are \<^typ>\<open>64 word\<close> read through
    \<^const>\<open>sint\<close>; lengths and shapes are \<^typ>\<open>nat\<close>;
  \<^item> a raised exception is \<open>Inl e\<close>, a normal return is \<open>Inr v\<close>.
\<close>

subsection \<open>Exceptions, slices and arrays\<close>

datatype py_error = ValueError | IndexError | UnboundLocalError | TypeError

text \<open>\<open>slice(start, stop)\<close> with integer bounds and no step.\<close>

datatype slice = Slice int int

type_synonym box = "slice \<times> slice"

text \<open>
  A three-dimensional numpy array indexed by (channel, row, column): its \<open>shape\<close>
  attribute and its elements as nested lists. The shape is kept beside the elements
  because an array with an empty leading axis still has a row and a column count.
\<close>

record ndarray =
  shape :: "nat \<times> nat \<times> nat"
  elems :: "real list list list"

text \<open>The consistency every numpy array has: the nested lists have the lengths of the shape.\<close>

definition wf_ndarray :: "ndarray \<Rightarrow> bool" where
  "wf_ndarray a =
     (case shape a of (B, N, M) \<Rightarrow>
        length (elems a) = B \<and>
        list_all (\<lambda>ch. length ch = N \<and> list_all (\<lambda>row. length row = M) ch) (elems a))"

text \<open>\<open>np.zeros(shape)\<close>\<close>

definition np_zeros :: "nat \<times> nat \<times> nat \<Rightarrow> ndarray" where
  "np_zeros s =
     (case s of (B, N, M) \<Rightarrow>
        \<lparr>shape = s, elems = replicate B (replicate N (replicate M 0))\<rparr>)"

text \<open>
  A two-dimensional array (a morph) is a list of rows. Its shape is read off the rows;
  an array without rows is taken to have no columns either.
\<close>

definition shape2 :: "real list list \<Rightarrow> nat \<times> nat" where
  "shape2 m = (length m, (case m of [] \<Rightarrow> 0 | r # _ \<Rightarrow> length r))"

text \<open>
  How Python resolves one bound of a slice on an axis of length \<open>n\<close>
  (\<open>slice.indices\<close>): a negative bound counts from the end and is clipped at 0, a
  non-negative bound is clipped at \<open>n\<close>. Nothing is raised.
\<close>

definition slice_bound :: "nat \<Rightarrow> int \<Rightarrow> nat" where
  "slice_bound n v = (if v < 0 then nat (max (v + int n) 0) else min (nat v) n)"

fun slice_indices :: "slice \<Rightarrow> nat \<Rightarrow> nat \<times> nat" where
  "slice_indices (Slice a b) n = (slice_bound n a, slice_bound n b)"

text \<open>
  Broadcasting: along an axis where an operand has length 1, its single entry is read
  at every position.
\<close>

definition bidx :: "nat \<Rightarrow> nat \<Rightarrow> nat" where
  "bidx d i = (if d = 1 then 0 else i)"

definition bc_dim :: "nat \<Rightarrow> nat \<Rightarrow> nat option" where
  "bc_dim a b = (if a = b then Some a else if a = 1 then Some b else if b = 1 then Some a else None)"

text \<open>Sequencing: an exception on the left is passed on, a value is handed to the rest.\<close>

definition ebind :: "py_error + 'a \<Rightarrow> ('a \<Rightarrow> py_error + 'b) \<Rightarrow> py_error + 'b" where
  "ebind r f = (case r of Inl e \<Rightarrow> Inl e | Inr v \<Rightarrow> f v)"

text \<open>Python's \<open>xs[k]\<close> for a non-negative index.\<close>

definition py_get :: "'a list \<Rightarrow> nat \<Rightarrow> py_error + 'a" where
  "py_get xs k = (if k < length xs then Inr (xs ! k) else Inl IndexError)"

text \<open>A \<open>for k in range(...)\<close> loop over a state; an exception in the body ends it.\<close>

fun for_range :: "(nat \<Rightarrow> 's \<Rightarrow> py_error + 's) \<Rightarrow> nat list \<Rightarrow> 's \<Rightarrow> py_error + 's" where
  "for_range body [] s = Inr s"
| "for_range body (k # ks) s = ebind (body k s) (for_range body ks)"

subsection \<open>The forward model\<close>

text \<open>
  \<open>sed[:, None, None] * morph[None, :, :]\<close>: the outer product, of shape
  \<open>(len(sed),) + morph.shape\<close>.
\<close>

definition outer :: "real list \<Rightarrow> real list list \<Rightarrow> ndarray" where
  "outer sed morph =
     \<lparr>shape = (length sed, shape2 morph),
      elems = map (\<lambda>s. map (\<lambda>row. map (\<lambda>m. s * m) row) morph) sed\<rparr>"

definition get_component_model :: "real list \<Rightarrow> real list list \<Rightarrow> int \<times> int \<Rightarrow> ndarray \<times> box" where
  "get_component_model sed morph center =
     (case center of (y, x) \<Rightarrow>
        let box = (Slice (y - 1) (y + 2), Slice (x - 1) (x + 2))
        in (outer sed morph, box))"

text \<open>
  \<open>get_component_model\<close> above takes the center as a pair of Python integers. The
  notebook passes a row of the array \<open>centers\<close>, whose entries are \<open>np.int64\<close>: then
  \<open>y-1\<close> and \<open>y+2\<close> are 64-bit two's complement arithmetic and wrap around at the
  limits, and the slice bounds are the signed values of the results. The two functions
  differ only where that arithmetic wraps, at the centers \<open>-2^63\<close>, \<open>2^63 - 2\<close> and
  \<open>2^63 - 1\<close> (lemma \<open>get_component_model_int64_in_range\<close>); the functions of the
  pipeline below are written for integer centers.
\<close>

definition get_component_model_int64 ::
  "real list \<Rightarrow> real list list \<Rightarrow> 64 word \<times> 64 word \<Rightarrow> ndarray \<times> box" where
  "get_component_model_int64 sed morph center =
     (case center of (y, x) \<Rightarrow>
        let box = (Slice (sint (y - 1)) (sint (y + 2)), Slice (sint (x - 1)) (sint (x + 2)))
        in (outer sed morph, box))"

text \<open>
  The statement \<open>model[:, box[0], box[1]] += patch\<close>. The left-hand side is the view of
  shape \<open>(B, r1 - r0, c1 - c0)\<close> that the resolved slices select. The in-place addition
  broadcasts \<open>patch\<close> to that shape: along every axis the patch must have the length of
  the view or length 1, and numpy raises \<open>ValueError\<close> otherwise.
\<close>

definition iadd_box :: "ndarray \<Rightarrow> box \<Rightarrow> ndarray \<Rightarrow> py_error + ndarray" where
  "iadd_box model bx patch =
     (case shape model of (B, N, M) \<Rightarrow>
      case shape patch of (C, ph, pw) \<Rightarrow>
      case slice_indices (fst bx) N of (r0, r1) \<Rightarrow>
      case slice_indices (snd bx) M of (c0, c1) \<Rightarrow>
        if (C = B \<or> C = 1) \<and> (ph = r1 - r0 \<or> ph = 1) \<and> (pw = c1 - c0 \<or> pw = 1)
        then Inr (model\<lparr>elems :=
               map (\<lambda>b. map (\<lambda>i. map (\<lambda>j.
                      if r0 \<le> i \<and> i < r1 \<and> c0 \<le> j \<and> j < c1
                      then elems model ! b ! i ! j
                           + elems patch ! bidx C b ! bidx ph (i - r0) ! bidx pw (j - c0)
                      else elems model ! b ! i ! j)
                    [0..<M]) [0..<N]) [0..<B]\<rparr>)
        else Inl ValueError)"

text \<open>
  The loop of \<open>get_full_model\<close> keeps three locals: the array \<open>model\<close>, the list
  \<open>boxes\<close>, and \<open>box\<close>, which is unbound until the first iteration has run.
\<close>

type_synonym full_model_state = "ndarray \<times> box list \<times> box option"

definition get_full_model_body ::
  "real list list \<Rightarrow> real list list list \<Rightarrow> (int \<times> int) list \<Rightarrow> nat \<Rightarrow>
   full_model_state \<Rightarrow> py_error + full_model_state" where
  "get_full_model_body seds morphs centers k st =
     (case st of (model, boxes, _) \<Rightarrow>
        ebind (py_get seds k) (\<lambda>sed.
        ebind (py_get morphs k) (\<lambda>morph.
        ebind (py_get centers k) (\<lambda>center.
          (case get_component_model sed morph center of (patch, bx) \<Rightarrow>
             ebind (iadd_box model bx patch) (\<lambda>model'.
               Inr (model', boxes @ [bx], Some bx)))))))"

text \<open>
  \<open>get_full_model\<close> ends with \<open>return model, box\<close>: the second component is the local
  \<open>box\<close>, not the list \<open>boxes\<close>; reading it while unbound raises \<open>UnboundLocalError\<close>.
\<close>

definition get_full_model ::
  "real list list \<Rightarrow> real list list list \<Rightarrow> (int \<times> int) list \<Rightarrow> nat \<times> nat \<times> nat \<Rightarrow>
   py_error + (ndarray \<times> box)" where
  "get_full_model seds morphs centers shp =
     ebind (for_range (get_full_model_body seds morphs centers) [0..<length seds]
              (np_zeros shp, [], None))
       (\<lambda>st. case st of (model, boxes, b) \<Rightarrow>
          (case b of None \<Rightarrow> Inl UnboundLocalError | Some bx \<Rightarrow> Inr (model, bx)))"

subsection \<open>The loss and its gradient\<close>

text \<open>
  An elementwise binary operation on two arrays with numpy's broadcasting: along each
  axis the lengths agree or one of them is 1; otherwise \<open>ValueError\<close>.
\<close>

definition np_binop :: "(real \<Rightarrow> real \<Rightarrow> real) \<Rightarrow> ndarray \<Rightarrow> ndarray \<Rightarrow> py_error + ndarray" where
  "np_binop f a b =
     (case shape a of (a0, a1, a2) \<Rightarrow>
      case shape b of (b0, b1, b2) \<Rightarrow>
        (case (bc_dim a0 b0, bc_dim a1 b1, bc_dim a2 b2) of
           (Some d0, Some d1, Some d2) \<Rightarrow>
             Inr \<lparr>shape = (d0, d1, d2),
                  elems = map (\<lambda>i. map (\<lambda>j. map (\<lambda>k.
                            f (elems a ! bidx a0 i ! bidx a1 j ! bidx a2 k)
                              (elems b ! bidx b0 i ! bidx b1 j ! bidx b2 k))
                          [0..<d2]) [0..<d1]) [0..<d0]\<rparr>
         | _ \<Rightarrow> Inl ValueError))"

text \<open>A Python scalar times an array.\<close>

definition np_scale :: "real \<Rightarrow> ndarray \<Rightarrow> ndarray" where
  "np_scale w a = a\<lparr>elems := map (map (map (\<lambda>v. w * v))) (elems a)\<rparr>"

definition np_square :: "ndarray \<Rightarrow> ndarray" where
  "np_square a = a\<lparr>elems := map (map (map (\<lambda>v. v ^ 2))) (elems a)\<rparr>"

text \<open>\<open>0.5*weights*(data-model)**2\<close>, with a scalar \<open>weights\<close> (its default is 1).\<close>

definition logL :: "ndarray \<Rightarrow> ndarray \<Rightarrow> real \<Rightarrow> py_error + ndarray" where
  "logL data model weights =
     ebind (np_binop (\<lambda>u v. u - v) data model) (\<lambda>d.
       Inr (np_scale (0.5 * weights) (np_square d)))"

text \<open>\<open>weights*(model-data)\<close>\<close>

definition grad_logL :: "ndarray \<Rightarrow> ndarray \<Rightarrow> real \<Rightarrow> py_error + ndarray" where
  "grad_logL data model weights =
     ebind (np_binop (\<lambda>u v. u - v) model data) (\<lambda>d. Inr (np_scale weights d))"

subsection \<open>The direct gradients\<close>

text \<open>
  \<open>a[:, box[0], box[1]]\<close>: basic slicing selects the rows and columns of the resolved
  ranges in every channel. It never raises; a range that leaves the axis is clipped.
\<close>

definition slice_box :: "ndarray \<Rightarrow> box \<Rightarrow> ndarray" where
  "slice_box a bx =
     (case shape a of (B, N, M) \<Rightarrow>
      case slice_indices (fst bx) N of (r0, r1) \<Rightarrow>
      case slice_indices (snd bx) M of (c0, c1) \<Rightarrow>
        \<lparr>shape = (B, r1 - r0, c1 - c0),
         elems = map (\<lambda>ch. map (\<lambda>row. take (c1 - c0) (drop c0 row))
                              (take (r1 - r0) (drop r0 ch))) (elems a)\<rparr>)"

text \<open>
  \<open>np.einsum("...jk,jk", a, m)\<close>: for every channel the sum over rows \<open>j\<close> and columns
  \<open>k\<close> of \<open>a[c,j,k] * m[j,k]\<close>. Operand axes carrying the same label must agree in
  length up to broadcasting of length 1.
\<close>

definition einsum_jk :: "ndarray \<Rightarrow> real list list \<Rightarrow> py_error + real list" where
  "einsum_jk a m =
     (case shape a of (B, h, w) \<Rightarrow>
      case shape2 m of (mh, mw) \<Rightarrow>
        (case (bc_dim h mh, bc_dim w mw) of
           (Some J, Some K) \<Rightarrow>
             Inr (map (\<lambda>ch. sum_list (map (\<lambda>j. sum_list (map (\<lambda>k.
                         ch ! bidx h j ! bidx w k * m ! bidx mh j ! bidx mw k)
                       [0..<K])) [0..<J])) (elems a))
         | _ \<Rightarrow> Inl ValueError))"

text \<open>
  \<open>np.einsum("i,i...", sed, a)\<close>: for every row and column the sum over channels \<open>i\<close>
  of \<open>sed[i] * a[i,j,k]\<close>.
\<close>

definition einsum_i :: "real list \<Rightarrow> ndarray \<Rightarrow> py_error + real list list" where
  "einsum_i sed a =
     (case shape a of (B, h, w) \<Rightarrow>
        (case bc_dim (length sed) B of
           Some I \<Rightarrow>
             Inr (map (\<lambda>j. map (\<lambda>k. sum_list (map (\<lambda>i.
                         sed ! bidx (length sed) i * elems a ! bidx B i ! j ! k)
                       [0..<I])) [0..<w]) [0..<h])
         | None \<Rightarrow> Inl ValueError))"

definition grad_get_component_model ::
  "ndarray \<Rightarrow> ndarray \<Rightarrow> real list \<Rightarrow> real list list \<Rightarrow> int \<times> int \<Rightarrow>
   py_error + (real list \<times> real list list)" where
  "grad_get_component_model chain_grad model sed morph center =
     (case center of (y, x) \<Rightarrow>
        let box = (Slice (y - 1) (y + 2), Slice (x - 1) (x + 2));
            chain_grad' = slice_box chain_grad box
        in ebind (einsum_jk chain_grad' morph) (\<lambda>sed_grad.
           ebind (einsum_i sed chain_grad') (\<lambda>morph_grad.
             Inr (sed_grad, morph_grad))))"

text \<open>
  The loop of \<open>grad_get_full_model\<close> appends to the lists \<open>sed_grads\<close> and
  \<open>morph_grads\<close>; \<open>np.array\<close> then stacks the entries, which is the list itself here.
\<close>

definition grad_get_full_model_body ::
  "ndarray \<Rightarrow> ndarray \<Rightarrow> (int \<times> int) list \<Rightarrow> real list list \<Rightarrow> real list list list \<Rightarrow> nat \<Rightarrow>
   real list list \<times> real list list list \<Rightarrow> py_error + (real list list \<times> real list list list)" where
  "grad_get_full_model_body chain_grad model centers seds morphs k st =
     (case st of (sed_grads, morph_grads) \<Rightarrow>
        ebind (py_get seds k) (\<lambda>sed.
        ebind (py_get morphs k) (\<lambda>morph.
        ebind (py_get centers k) (\<lambda>center.
        ebind (grad_get_component_model chain_grad model sed morph center) (\<lambda>grads.
          Inr (sed_grads @ [fst grads], morph_grads @ [snd grads]))))))"

definition grad_get_full_model ::
  "ndarray \<Rightarrow> ndarray \<Rightarrow> (int \<times> int) list \<Rightarrow> real list list \<Rightarrow> real list list list \<Rightarrow>
   py_error + (real list list \<times> real list list list)" where
  "grad_get_full_model chain_grad model centers seds morphs =
     for_range (grad_get_full_model_body chain_grad model centers seds morphs)
       [0..<length centers] ([], [])"

definition calculate_gradients_direct ::
  "ndarray \<Rightarrow> (int \<times> int) list \<Rightarrow> real list list \<Rightarrow> real list list list \<Rightarrow>
   py_error + (real list list \<times> real list list list)" where
  "calculate_gradients_direct images centers seds morphs =
     ebind (get_full_model seds morphs centers (shape images)) (\<lambda>r.
       (case r of (model, boxes) \<Rightarrow>
          ebind (grad_logL images model 1) (\<lambda>gL.
            grad_get_full_model gL model centers seds morphs)))"

subsection \<open>The gradient pipeline on a store of arrays\<close>

text \<open>
  numpy arrays are mutable objects, and \<open>model[:, box[0], box[1]] += patch\<close> writes into
  the object that \<open>model\<close> refers to. To say which objects a call writes to, the same
  functions are given once more on an explicit store: a list of objects, an address being
  an index into it. \<open>np.zeros\<close> and every arithmetic expression allocate a new object at
  the end of the store; the in-place addition replaces the object at the address of
  \<open>model\<close>. The results are returned together with the store, also when an exception
  ends the call.

  The arguments are addresses. An address that does not hold an array of the kind the
  function indexes is reported as \<open>TypeError\<close>.
\<close>

datatype obj =
  Array3 ndarray
| SedArray "real list list"
| MorphArray "real list list list"
| CenterArray "(int \<times> int) list"

type_synonym addr = nat

type_synonym heap = "obj list"

definition get_image :: "heap \<Rightarrow> addr \<Rightarrow> py_error + ndarray" where
  "get_image h a =
     (if a < length h then (case h ! a of Array3 x \<Rightarrow> Inr x | _ \<Rightarrow> Inl TypeError) else Inl TypeError)"

definition get_seds :: "heap \<Rightarrow> addr \<Rightarrow> py_error + real list list" where
  "get_seds h a =
     (if a < length h then (case h ! a of SedArray x \<Rightarrow> Inr x | _ \<Rightarrow> Inl TypeError) else Inl TypeError)"

definition get_morphs :: "heap \<Rightarrow> addr \<Rightarrow> py_error + real list list list" where
  "get_morphs h a =
     (if a < length h then (case h ! a of MorphArray x \<Rightarrow> Inr x | _ \<Rightarrow> Inl TypeError) else Inl TypeError)"

definition get_centers :: "heap \<Rightarrow> addr \<Rightarrow> py_error + (int \<times> int) list" where
  "get_centers h a =
     (if a < length h then (case h ! a of CenterArray x \<Rightarrow> Inr x | _ \<Rightarrow> Inl TypeError) else Inl TypeError)"

text \<open>Allocation of a fresh object.\<close>

definition alloc :: "obj \<Rightarrow> heap \<Rightarrow> addr \<times> heap" where
  "alloc v h = (length h, h @ [v])"

text \<open>A \<open>for\<close> loop whose body also transforms the store.\<close>

fun for_range_h ::
  "(nat \<Rightarrow> 's \<Rightarrow> heap \<Rightarrow> (py_error + 's) \<times> heap) \<Rightarrow> nat list \<Rightarrow> 's \<Rightarrow> heap \<Rightarrow>
   (py_error + 's) \<times> heap" where
  "for_range_h body [] s h = (Inr s, h)"
| "for_range_h body (k # ks) s h =
     (case body k s h of
        (Inl e, h') \<Rightarrow> (Inl e, h')
      | (Inr s', h') \<Rightarrow> for_range_h body ks s' h')"

text \<open>
  One iteration of \<open>get_full_model\<close>: the component is read from the input arrays, the
  patch is a new array, and the sum is written back at the address of \<open>model\<close>.
\<close>

definition get_full_model_body_h ::
  "addr \<Rightarrow> addr \<Rightarrow> addr \<Rightarrow> addr \<Rightarrow> nat \<Rightarrow> box list \<times> box option \<Rightarrow> heap \<Rightarrow>
   (py_error + (box list \<times> box option)) \<times> heap" where
  "get_full_model_body_h seds morphs centers model k st h =
     (case ebind (get_seds h seds) (\<lambda>ss. ebind (py_get ss k) (\<lambda>sed.
           ebind (get_morphs h morphs) (\<lambda>ms. ebind (py_get ms k) (\<lambda>morph.
           ebind (get_centers h centers) (\<lambda>cs. ebind (py_get cs k) (\<lambda>center.
             (case get_component_model sed morph center of (patch, bx) \<Rightarrow>
                ebind (get_image h model) (\<lambda>m.
                ebind (iadd_box m bx patch) (\<lambda>m'. Inr (m', bx)))))))))) of
        Inl e \<Rightarrow> (Inl e, h)
      | Inr (m', bx) \<Rightarrow> (Inr (fst st @ [bx], Some bx), h[model := Array3 m']))"

definition get_full_model_h ::
  "addr \<Rightarrow> addr \<Rightarrow> addr \<Rightarrow> nat \<times> nat \<times> nat \<Rightarrow> heap \<Rightarrow> (py_error + (addr \<times> box)) \<times> heap" where
  "get_full_model_h seds morphs centers shp h =
     (case alloc (Array3 (np_zeros shp)) h of (model, h1) \<Rightarrow>
        (case get_seds h1 seds of
           Inl e \<Rightarrow> (Inl e, h1)
         | Inr ss \<Rightarrow>
             (case for_range_h (get_full_model_body_h seds morphs centers model)
                     [0..<length ss] ([], None) h1 of
                (Inl e, h2) \<Rightarrow> (Inl e, h2)
              | (Inr (boxes, b), h2) \<Rightarrow>
                  (case b of None \<Rightarrow> (Inl UnboundLocalError, h2)
                   | Some bx \<Rightarrow> (Inr (model, bx), h2)))))"

text \<open>\<open>grad_logL\<close> reads both arrays and returns a new one.\<close>

definition grad_logL_h :: "addr \<Rightarrow> addr \<Rightarrow> real \<Rightarrow> heap \<Rightarrow> (py_error + addr) \<times> heap" where
  "grad_logL_h data model weights h =
     (case ebind (get_image h data) (\<lambda>d. ebind (get_image h model) (\<lambda>m. grad_logL d m weights)) of
        Inl e \<Rightarrow> (Inl e, h)
      | Inr g \<Rightarrow> (case alloc (Array3 g) h of (a, h') \<Rightarrow> (Inr a, h')))"

text \<open>
  \<open>grad_get_full_model\<close> only reads its arguments: slices are views, \<open>einsum\<close> and
  \<open>np.array\<close> return new arrays, which are the returned values here.
\<close>

definition grad_get_full_model_h ::
  "addr \<Rightarrow> addr \<Rightarrow> addr \<Rightarrow> addr \<Rightarrow> addr \<Rightarrow> heap \<Rightarrow>
   (py_error + (real list list \<times> real list list list)) \<times> heap" where
  "grad_get_full_model_h chain_grad model centers seds morphs h =
     (ebind (get_centers h centers) (\<lambda>cs.
      ebind (get_image h chain_grad) (\<lambda>g.
      ebind (get_image h model) (\<lambda>m.
      ebind (get_seds h seds) (\<lambda>ss.
      ebind (get_morphs h morphs) (\<lambda>ms.
        grad_get_full_model g m cs ss ms))))), h)"

definition calculate_gradients_direct_h ::
  "addr \<Rightarrow> addr \<Rightarrow> addr \<Rightarrow> addr \<Rightarrow> heap \<Rightarrow>
   (py_error + (real list list \<times> real list list list)) \<times> heap" where
  "calculate_gradients_direct_h images centers seds morphs h =
     (case get_image h images of
        Inl e \<Rightarrow> (Inl e, h)
      | Inr im \<Rightarrow>
          (case get_full_model_h seds morphs centers (shape im) h of
             (Inl e, h1) \<Rightarrow> (Inl e, h1)
           | (Inr (model, boxes), h1) \<Rightarrow>
               (case grad_logL_h images model 1 h1 of
                  (Inl e, h2) \<Rightarrow> (Inl e, h2)
                | (Inr gL, h2) \<Rightarrow> grad_get_full_model_h gL model centers seds morphs h2)))"

subsection \<open>The scene builder\<close>

text \<open>
  \<open>build_scene\<close> draws from numpy's global random generator. The generator is modelled
  by the sequence of raw numbers it is going to deliver; a draw reads the head of the
  sequence and leaves the rest. Every outcome the library can produce is the image of some
  sequence.

  \<open>np.random.randint(low, high)\<close> returns an integer in the half-open range
  \<open>[low, high)\<close> and raises \<open>ValueError\<close> when the range is empty.
  \<open>np.random.rand(n)\<close> returns \<open>n\<close> numbers in \<open>[0, 1)\<close>, each a multiple of \<open>1 / 2 ^ 53\<close>.
\<close>

type_synonym rng = "nat \<Rightarrow> nat"

definition randint :: "int \<Rightarrow> int \<Rightarrow> rng \<Rightarrow> py_error + (int \<times> rng)" where
  "randint low high g =
     (if low \<ge> high then Inl ValueError
      else Inr (low + int (g 0 mod nat (high - low)), \<lambda>i. g (Suc i)))"

definition rand :: "nat \<Rightarrow> rng \<Rightarrow> real list \<times> rng" where
  "rand n g = (map (\<lambda>i. real (g i mod 2 ^ 53) / 2 ^ 53) [0..<n], \<lambda>i. g (n + i))"

text \<open>Python's \<open>xs[k] = v\<close> for a non-negative index.\<close>

definition py_set :: "'a list \<Rightarrow> nat \<Rightarrow> 'a \<Rightarrow> py_error + 'a list" where
  "py_set xs k v = (if k < length xs then Inr (xs[k := v]) else Inl IndexError)"

text \<open>\<open>morph[None, :, :] * sed[:, None, None]\<close>, the product as \<open>build_scene\<close> writes it.\<close>

definition outer_rev :: "real list list \<Rightarrow> real list \<Rightarrow> ndarray" where
  "outer_rev morph sed =
     \<lparr>shape = (length sed, shape2 morph),
      elems = map (\<lambda>s. map (\<lambda>row. map (\<lambda>m. m * s) row) morph) sed\<rparr>"

text \<open>
  The second loop of \<open>build_scene\<close> works on the generator and on the arrays \<open>images\<close>,
  \<open>centers\<close> and \<open>seds\<close>. The rescaling \<open>sed *= 500/np.sum(sed)\<close> is a float division,
  which does not raise; over the reals a zero sum gives the factor 0.
\<close>

type_synonym scene_state = "rng \<times> ndarray \<times> (int \<times> int) list \<times> real list list"

definition build_scene_body ::
  "nat \<Rightarrow> real list list list \<Rightarrow> nat \<Rightarrow> scene_state \<Rightarrow> py_error + scene_state" where
  "build_scene_body B morphs k st =
     (case st of (g, images, centers, seds) \<Rightarrow>
        ebind (randint 4 (int (fst (snd (shape images))) - 4) g) (\<lambda>r1.
        ebind (randint 4 (int (snd (snd (shape images))) - 4) (snd r1)) (\<lambda>r2.
          (let cy = fst r1; cx = fst r2; center = (cy, cx);
               r3 = rand B (snd r2);
               sed = map (\<lambda>v. v * (500 / sum_list (fst r3))) (fst r3)
           in ebind (py_set centers k center) (\<lambda>centers'.
              ebind (py_get morphs k) (\<lambda>morph.
              ebind (iadd_box images (Slice (cy - 1) (cy + 2), Slice (cx - 1) (cx + 2))
                       (outer_rev morph sed)) (\<lambda>images'.
              ebind (py_set seds k sed) (\<lambda>seds'.
                Inr (snd r3, images', centers', seds')))))))))"

text \<open>
  \<open>build_scene(shape, K, show=False)\<close> returns \<open>(images, centers, seds, morphs)\<close>; the
  model also returns the generator. With \<open>show=True\<close> the function additionally hands a
  copy of \<open>images\<close> to matplotlib before it returns the same four arrays; that display
  branch is not part of the model.
\<close>

definition build_scene ::
  "nat \<times> nat \<times> nat \<Rightarrow> nat \<Rightarrow> rng \<Rightarrow>
   py_error + ((ndarray \<times> (int \<times> int) list \<times> real list list \<times> real list list list) \<times> rng)" where
  "build_scene shp K g =
     (case shp of (B, N, M) \<Rightarrow>
        let images = np_zeros shp;
            centers = replicate K (0, 0);
            seds = replicate K (replicate B 0);
            morphs0 = replicate K [[0, 0, 0], [0, 1, 0], [0, 0, 0]]
        in ebind (for_range (\<lambda>k ms. py_set ms k [[0, 1, 2], [3, 4, 5], [6, 7, 8]]) [0..<K] morphs0)
             (\<lambda>morphs.
           ebind (for_range (build_scene_body B morphs) [0..<K] (g, images, centers, seds))
             (\<lambda>st. case st of (g', images', centers', seds') \<Rightarrow>
                Inr ((images', centers', seds', morphs), g'))))"

subsection \<open>Vocabulary of the properties\<close>

text \<open>A morph of three rows of three entries.\<close>

definition is_3x3 :: "real list list \<Rightarrow> bool" where
  "is_3x3 m = (length m = 3 \<and> list_all (\<lambda>r. length r = 3) m)"

text \<open>
  The 3x3 window around a center lies fully inside an image of the given shape: rows
  \<open>y-1 .. y+1\<close> and columns \<open>x-1 .. x+1\<close> all exist.
\<close>

definition window_inside :: "nat \<times> nat \<times> nat \<Rightarrow> int \<times> int \<Rightarrow> bool" where
  "window_inside shp center =
     (case shp of (B, N, M) \<Rightarrow> case center of (y, x) \<Rightarrow>
        1 \<le> y \<and> y + 2 \<le> int N \<and> 1 \<le> x \<and> x + 2 \<le> int M)"

text \<open>
  The upstream gradient \<open>weights * (model - data)\<close> read at channel \<open>c\<close> and at offset
  \<open>(i, j)\<close> inside the window of a center.
\<close>

definition upstream_at ::
  "ndarray \<Rightarrow> ndarray \<Rightarrow> real \<Rightarrow> int \<times> int \<Rightarrow> nat \<Rightarrow> nat \<Rightarrow> nat \<Rightarrow> real" where
  "upstream_at model data weights center c i j =
     (case center of (y, x) \<Rightarrow>
        weights * (elems model ! c ! (nat (y - 1) + i) ! (nat (x - 1) + j)
                   - elems data ! c ! (nat (y - 1) + i) ! (nat (x - 1) + j)))"

text \<open>
  The slice \<open>slice(y-1, y+2)\<close> selects exactly three entries of an axis of length \<open>n\<close>
  in two situations: the three indices exist as they are, or both bounds are negative and
  Python counts them from the end of the axis.
\<close>

definition axis_window_ok :: "nat \<Rightarrow> int \<Rightarrow> bool" where
  "axis_window_ok n y = ((1 \<le> y \<and> y + 2 \<le> int n) \<or> (1 - int n \<le> y \<and> y \<le> - 3))"

text \<open>
  The number of entries of an axis of length \<open>n\<close> that \<open>slice(y-1, y+2)\<close> selects, after
  Python has clipped and wrapped the bounds: a number between 0 and 3.
\<close>

definition window_len :: "nat \<Rightarrow> int \<Rightarrow> nat" where
  "window_len n y =
     (case slice_indices (Slice (y - 1) (y + 2)) n of (a, b) \<Rightarrow> b - a)"

text \<open>
  The inputs on which the in-place addition of the render raises for a component with a
  3x3 morph and a sed of length \<open>n\<close>: the sed has neither one entry per channel nor a
  single entry, or the slices do not select three rows and three columns.
\<close>

definition render_rejects :: "nat \<times> nat \<times> nat \<Rightarrow> nat \<Rightarrow> int \<times> int \<Rightarrow> bool" where
  "render_rejects shp n center =
     (case shp of (B, N, M) \<Rightarrow> case center of (y, x) \<Rightarrow>
        (n \<noteq> B \<and> n \<noteq> 1) \<or> window_len N y \<noteq> 3 \<or> window_len M x \<noteq> 3)"

text \<open>
  The inputs on which the contractions of the gradient raise for such a component: the
  slices select no or two rows, or no or two columns, or the sed length and the channel
  count differ and neither of them is 1. A window clipped to a single row or column is
  broadcast against the morph.
\<close>

definition grad_rejects :: "nat \<times> nat \<times> nat \<Rightarrow> nat \<Rightarrow> int \<times> int \<Rightarrow> bool" where
  "grad_rejects shp n center =
     (case shp of (B, N, M) \<Rightarrow> case center of (y, x) \<Rightarrow>
        (n \<noteq> B \<and> n \<noteq> 1 \<and> B \<noteq> 1) \<or>
        (window_len N y \<noteq> 3 \<and> window_len N y \<noteq> 1) \<or>
        (window_len M x \<noteq> 3 \<and> window_len M x \<noteq> 1))"

text \<open>
  What one component with a window inside the image adds to the pixel \<open>(c, i, j)\<close>:
  \<open>sed[c] * morph[i - (y-1)][j - (x-1)]\<close> inside its window and nothing outside.
\<close>

definition patch_at ::
  "real list \<Rightarrow> real list list \<Rightarrow> int \<times> int \<Rightarrow> nat \<Rightarrow> nat \<Rightarrow> nat \<Rightarrow> real" where
  "patch_at sed morph center c i j =
     (case center of (y, x) \<Rightarrow>
        if nat (y - 1) \<le> i \<and> i < nat (y - 1) + 3 \<and> nat (x - 1) \<le> j \<and> j < nat (x - 1) + 3
        then sed ! c * morph ! (i - nat (y - 1)) ! (j - nat (x - 1))
        else 0)"

text \<open>A center that keeps four pixels of margin to every edge of the image.\<close>

definition center_margin :: "nat \<times> nat \<times> nat \<Rightarrow> int \<times> int \<Rightarrow> bool" where
  "center_margin shp center =
     (case shp of (B, N, M) \<Rightarrow> case center of (cy, cx) \<Rightarrow>
        4 \<le> cy \<and> cy \<le> int N - 5 \<and> 4 \<le> cx \<and> cx \<le> int M - 5)"

text \<open>
  A list of components that fits an image shape: the three lists have one entry per
  component, every sed has one entry per channel, every morph is 3x3 and every window
  lies inside the image.
\<close>

definition comps_ok ::
  "nat \<times> nat \<times> nat \<Rightarrow> real list list \<Rightarrow> real list list list \<Rightarrow> (int \<times> int) list \<Rightarrow> bool" where
  "comps_ok shp seds morphs centers =
     (length morphs = length seds \<and> length centers = length seds \<and>
      (\<forall>k<length seds. length (seds ! k) = fst shp \<and> is_3x3 (morphs ! k) \<and>
                        window_inside shp (centers ! k)))"

section \<open>Properties\<close>

subsection \<open>Basic facts about the primitives\<close>

lemma ebind_Inr [simp]: "ebind (Inr v) f = f v"
  by (simp add: ebind_def)

lemma ebind_Inl [simp]: "ebind (Inl e) f = Inl e"
  by (simp add: ebind_def)

lemma bidx_lt: "i < d \<Longrightarrow> bidx d i = i"
  by (auto simp: bidx_def)

lemma bc_dim_same [simp]: "bc_dim n n = Some n"
  by (simp add: bc_dim_def)

lemma for_range_upt_inv:
  assumes "I a s" and "a \<le> n"
    and step: "\<And>k s. a \<le> k \<Longrightarrow> k < n \<Longrightarrow> I k s \<Longrightarrow> \<exists>s'. body k s = Inr s' \<and> I (Suc k) s'"
  shows "\<exists>s'. for_range body [a..<n] s = Inr s' \<and> I n s'"
  using assms
proof (induction "n - a" arbitrary: a s)
  case 0
  then show ?case by simp
next
  case (Suc d)
  then have lt: "a < n" by simp
  from Suc.prems(3) [of a s] Suc.prems(1) lt obtain s1 where
    s1: "body a s = Inr s1" "I (Suc a) s1" by auto
  have "\<exists>s'. for_range body [Suc a..<n] s1 = Inr s' \<and> I n s'"
  proof (rule Suc.hyps(1))
    show "d = n - Suc a" using Suc.hyps(2) by simp
    show "I (Suc a) s1" by (rule s1)
    show "Suc a \<le> n" using lt by simp
    show "\<And>k s. Suc a \<le> k \<Longrightarrow> k < n \<Longrightarrow> I k s \<Longrightarrow> \<exists>s'. body k s = Inr s' \<and> I (Suc k) s'"
      using Suc.prems(3) by simp
  qed
  then show ?case using lt s1 by (simp add: upt_conv_Cons)
qed

lemma wf_ndarray_nth:
  assumes "wf_ndarray a" "shape a = (B, N, M)"
  shows "length (elems a) = B"
    and "c < B \<Longrightarrow> length (elems a ! c) = N"
    and "c < B \<Longrightarrow> i < N \<Longrightarrow> length (elems a ! c ! i) = M"
  using assms by (auto simp: wf_ndarray_def list_all_length)

lemma wf_ndarrayI:
  assumes "shape a = (B, N, M)" "length (elems a) = B"
    "\<And>c. c < B \<Longrightarrow> length (elems a ! c) = N"
    "\<And>c i. c < B \<Longrightarrow> i < N \<Longrightarrow> length (elems a ! c ! i) = M"
  shows "wf_ndarray a"
  using assms by (auto simp: wf_ndarray_def list_all_length)

lemma np_zeros_shape [simp]: "shape (np_zeros shp) = shp"
  by (cases shp) (simp add: np_zeros_def)

lemma wf_np_zeros: "wf_ndarray (np_zeros shp)"
  by (cases shp) (auto simp: np_zeros_def wf_ndarray_def list_all_length)

lemma slice_indices_inside:
  assumes "1 \<le> y" "y + 2 \<le> int n"
  shows "slice_indices (Slice (y - 1) (y + 2)) n = (nat (y - 1), nat (y - 1) + 3)"
  using assms by (auto simp: slice_bound_def min_def nat_add_distrib)

lemma is_3x3_nth: "is_3x3 m \<Longrightarrow> length m = 3 \<and> (\<forall>i<3. length (m ! i) = 3)"
  by (auto simp: is_3x3_def list_all_length)

lemma shape2_3x3: "is_3x3 m \<Longrightarrow> shape2 m = (3, 3)"
  by (cases m) (auto simp: is_3x3_def shape2_def)

lemma outer_shape: "is_3x3 m \<Longrightarrow> shape (outer sed m) = (length sed, 3, 3)"
  by (simp add: outer_def shape2_3x3)

lemma iadd_box_inside:
  assumes "shape model = (B, N, M)" "shape patch = (B, 3, 3)" "window_inside (B, N, M) (y, x)"
  shows "iadd_box model (Slice (y - 1) (y + 2), Slice (x - 1) (x + 2)) patch =
     Inr (model\<lparr>elems :=
               map (\<lambda>b. map (\<lambda>i. map (\<lambda>j.
                      if nat (y - 1) \<le> i \<and> i < nat (y - 1) + 3 \<and> nat (x - 1) \<le> j \<and> j < nat (x - 1) + 3
                      then elems model ! b ! i ! j
                           + elems patch ! bidx B b ! (i - nat (y - 1)) ! (j - nat (x - 1))
                      else elems model ! b ! i ! j)
                    [0..<M]) [0..<N]) [0..<B]\<rparr>)"
  using assms
  by (simp add: iadd_box_def window_inside_def slice_indices_inside bidx_def del: slice_indices.simps)


subsection \<open>The render loop on well-formed components\<close>

lemma outer_nth:
  assumes "c < length sed" "a < length morph" "b < length (morph ! a)"
  shows "elems (outer sed morph) ! c ! a ! b = sed ! c * morph ! a ! b"
  using assms by (simp add: outer_def)

lemma get_full_model_body_pixels:
  assumes ok: "comps_ok (B, N, M) seds morphs centers" and k: "k < length seds"
    and m: "shape model = (B, N, M)"
  shows "\<exists>m'. get_full_model_body seds morphs centers k (model, boxes, b) =
            Inr (m', boxes @ [snd (get_component_model (seds ! k) (morphs ! k) (centers ! k))],
                 Some (snd (get_component_model (seds ! k) (morphs ! k) (centers ! k))))
          \<and> shape m' = (B, N, M) \<and> wf_ndarray m'
          \<and> (\<forall>c<B. \<forall>i<N. \<forall>j<M. elems m' ! c ! i ! j =
                elems model ! c ! i ! j + patch_at (seds ! k) (morphs ! k) (centers ! k) c i j)"
proof -
  from ok k have l: "k < length morphs" "k < length centers"
    and s: "length (seds ! k) = B" and t: "is_3x3 (morphs ! k)"
    and w: "window_inside (B, N, M) (centers ! k)"
    by (auto simp: comps_ok_def)
  obtain y x where c: "centers ! k = (y, x)" by (cases "centers ! k")
  have p: "shape (outer (seds ! k) (morphs ! k)) = (B, 3, 3)"
    using s t by (simp add: outer_shape)
  note ia = iadd_box_inside [OF m p w [unfolded c]]
  let ?m' = "model\<lparr>elems :=
               map (\<lambda>b. map (\<lambda>i. map (\<lambda>j.
                      if nat (y - 1) \<le> i \<and> i < nat (y - 1) + 3 \<and> nat (x - 1) \<le> j \<and> j < nat (x - 1) + 3
                      then elems model ! b ! i ! j
                           + elems (outer (seds ! k) (morphs ! k)) ! bidx B b ! (i - nat (y - 1)) ! (j - nat (x - 1))
                      else elems model ! b ! i ! j)
                    [0..<M]) [0..<N]) [0..<B]\<rparr>"
  have r: "get_full_model_body seds morphs centers k (model, boxes, b) =
      Inr (?m', boxes @ [snd (get_component_model (seds ! k) (morphs ! k) (centers ! k))],
                 Some (snd (get_component_model (seds ! k) (morphs ! k) (centers ! k))))"
    using k l ia by (simp add: get_full_model_body_def py_get_def get_component_model_def c)
  have sh: "shape ?m' = (B, N, M)" using m by simp
  have wf: "wf_ndarray ?m'" by (rule wf_ndarrayI [OF sh]) simp_all
  have px: "elems ?m' ! c ! i ! j =
                elems model ! c ! i ! j + patch_at (seds ! k) (morphs ! k) (centers ! k) c i j"
    if "c < B" "i < N" "j < M" for c i j
  proof (cases "nat (y - 1) \<le> i \<and> i < nat (y - 1) + 3 \<and> nat (x - 1) \<le> j \<and> j < nat (x - 1) + 3")
    case True
    then have a: "i - nat (y - 1) < 3" "j - nat (x - 1) < 3" by auto
    have "elems (outer (seds ! k) (morphs ! k)) ! c ! (i - nat (y - 1)) ! (j - nat (x - 1))
          = seds ! k ! c * morphs ! k ! (i - nat (y - 1)) ! (j - nat (x - 1))"
      using that(1) s is_3x3_nth [OF t] a by (intro outer_nth) auto
    then show ?thesis using that True by (simp add: patch_at_def c bidx_lt)
  next
    case False
    then have "patch_at (seds ! k) (morphs ! k) (centers ! k) c i j = 0"
      by (auto simp: patch_at_def c)
    moreover have "elems ?m' ! c ! i ! j = elems model ! c ! i ! j"
      using that False by auto
    ultimately show ?thesis by simp
  qed
  show ?thesis using r sh wf px by blast
qed

lemma get_full_model_pixels:
  assumes ok: "comps_ok (B, N, M) seds morphs centers" and ne: "seds \<noteq> []"
  shows "\<exists>model. get_full_model seds morphs centers (B, N, M) =
            Inr (model, snd (get_component_model (last seds) (last morphs) (last centers)))
          \<and> shape model = (B, N, M) \<and> wf_ndarray model
          \<and> (\<forall>c<B. \<forall>i<N. \<forall>j<M. elems model ! c ! i ! j =
                (\<Sum>l<length seds. patch_at (seds ! l) (morphs ! l) (centers ! l) c i j))"
proof -
  let ?K = "length seds"
  let ?bx = "\<lambda>k. snd (get_component_model (seds ! k) (morphs ! k) (centers ! k))"
  let ?I = "\<lambda>k st. case st of (m, boxes, b) \<Rightarrow>
      shape m = (B, N, M) \<and> wf_ndarray m \<and> (b = (if k = 0 then None else Some (?bx (k - 1))))
      \<and> (\<forall>c<B. \<forall>i<N. \<forall>j<M. elems m ! c ! i ! j =
                (\<Sum>l<k. patch_at (seds ! l) (morphs ! l) (centers ! l) c i j))"
  have "\<exists>s'. for_range (get_full_model_body seds morphs centers) [0..<?K] (np_zeros (B, N, M), [], None) = Inr s'
          \<and> ?I ?K s'"
  proof (rule for_range_upt_inv [where I = ?I])
    show "?I 0 (np_zeros (B, N, M), [], None)" by (simp add: wf_np_zeros) (simp add: np_zeros_def)
    show "0 \<le> ?K" by simp
    fix k and st :: full_model_state assume k: "0 \<le> k" "k < ?K" and I: "?I k st"
    obtain m boxes b where st: "st = (m, boxes, b)" by (cases st)
    from I st have m: "shape m = (B, N, M)" by simp
    from get_full_model_body_pixels [OF ok k(2) m, of boxes b] obtain m' where
      r: "get_full_model_body seds morphs centers k (m, boxes, b) = Inr (m', boxes @ [?bx k], Some (?bx k))"
      and p: "shape m' = (B, N, M)" "wf_ndarray m'"
        "\<forall>c<B. \<forall>i<N. \<forall>j<M. elems m' ! c ! i ! j =
                elems m ! c ! i ! j + patch_at (seds ! k) (morphs ! k) (centers ! k) c i j"
      by blast
    have "?I (Suc k) (m', boxes @ [?bx k], Some (?bx k))"
      using p I unfolding st by simp
    then show "\<exists>s'. get_full_model_body seds morphs centers k st = Inr s' \<and> ?I (Suc k) s'"
      unfolding st using r by blast
  qed
  then obtain s' where
    r0: "for_range (get_full_model_body seds morphs centers) [0..<?K] (np_zeros (B, N, M), [], None) = Inr s'"
    and I0: "?I ?K s'" by blast
  obtain m boxes b where s': "s' = (m, boxes, b)" by (cases s')
  note r = r0 [unfolded s'] and I = I0 [unfolded s']
  from ok have lens: "length morphs = ?K" "length centers = ?K" by (auto simp: comps_ok_def)
  from ne lens have "morphs \<noteq> []" "centers \<noteq> []" by auto
  with ne lens have "?bx (?K - 1) = snd (get_component_model (last seds) (last morphs) (last centers))"
    by (simp add: last_conv_nth)
  with I r ne show ?thesis by (simp add: get_full_model_def)
qed

subsection \<open>Rendering a concatenation of component lists\<close>

text \<open>
  For two non-empty lists of components that fit the image, the three renders succeed and the
  image of the concatenation is the elementwise sum of the two images. Over the reals
  this needs no assumption on overlaps.
\<close>

lemma comps_ok_append:
  assumes "comps_ok shp sA mA cA" "comps_ok shp sB mB cB"
  shows "comps_ok shp (sA @ sB) (mA @ mB) (cA @ cB)"
  using assms by (auto simp: comps_ok_def nth_append)

lemma sum_lessThan_add:
  fixes f :: "nat \<Rightarrow> real"
  shows "(\<Sum>l<a + b. f l) = (\<Sum>l<a. f l) + (\<Sum>l<b. f (a + l))"
  by (induction b) (simp_all add: add.assoc [symmetric])

lemma ndarray_eqI:
  assumes wf: "wf_ndarray a" and sh: "shape a = (B, N, M)"
    and px: "\<And>c i j. c < B \<Longrightarrow> i < N \<Longrightarrow> j < M \<Longrightarrow> elems a ! c ! i ! j = g c i j"
  shows "a = \<lparr>shape = (B, N, M),
               elems = map (\<lambda>c. map (\<lambda>i. map (\<lambda>j. g c i j) [0..<M]) [0..<N]) [0..<B]\<rparr>"
proof -
  note l = wf_ndarray_nth [OF wf sh]
  have row: "elems a ! c ! i = map (\<lambda>j. g c i j) [0..<M]" if "c < B" "i < N" for c i
    using that px by (intro nth_equalityI) (simp_all add: l(3))
  have ch: "elems a ! c = map (\<lambda>i. map (\<lambda>j. g c i j) [0..<M]) [0..<N]" if "c < B" for c
    using that row by (intro nth_equalityI) (simp_all add: l(2))
  have "elems a = map (\<lambda>c. map (\<lambda>i. map (\<lambda>j. g c i j) [0..<M]) [0..<N]) [0..<B]"
    using ch by (intro nth_equalityI) (simp_all add: l(1))
  then show ?thesis using sh by (cases a) simp
qed

lemma get_full_model_append:
  assumes okA: "comps_ok shp sA mA cA" and okB: "comps_ok shp sB mB cB"
    and neA: "sA \<noteq> []" and neB: "sB \<noteq> []"
  shows "\<exists>imgA bxA imgB bxB imgAB.
     get_full_model sA mA cA shp = Inr (imgA, bxA) \<and>
     get_full_model sB mB cB shp = Inr (imgB, bxB) \<and>
     get_full_model (sA @ sB) (mA @ mB) (cA @ cB) shp = Inr (imgAB, bxB) \<and>
     np_binop (\<lambda>u v. u + v) imgA imgB = Inr imgAB"
proof -
  obtain B N M where shp: "shp = (B, N, M)" by (cases shp)
  note okAB = comps_ok_append [OF okA okB]
  from okA okB have lens: "length mA = length sA" "length cA = length sA"
    "length mB = length sB" "length cB = length sB"
    by (auto simp: comps_ok_def)
  from get_full_model_pixels [OF okA [unfolded shp] neA] obtain imgA bxA where
    A: "get_full_model sA mA cA (B, N, M) = Inr (imgA, bxA)" "shape imgA = (B, N, M)"
    and pA: "\<forall>c<B. \<forall>i<N. \<forall>j<M. elems imgA ! c ! i ! j =
                (\<Sum>l<length sA. patch_at (sA ! l) (mA ! l) (cA ! l) c i j)"
    by blast
  from get_full_model_pixels [OF okB [unfolded shp] neB] obtain imgB where
    B: "get_full_model sB mB cB (B, N, M) = Inr (imgB, snd (get_component_model (last sB) (last mB) (last cB)))"
      "shape imgB = (B, N, M)"
    and pB: "\<forall>c<B. \<forall>i<N. \<forall>j<M. elems imgB ! c ! i ! j =
                (\<Sum>l<length sB. patch_at (sB ! l) (mB ! l) (cB ! l) c i j)"
    by blast
  from neB lens have ne: "sA @ sB \<noteq> []" "mB \<noteq> []" "cB \<noteq> []" by auto
  from get_full_model_pixels [OF okAB [unfolded shp] ne(1)] ne neB obtain imgAB where
    AB: "get_full_model (sA @ sB) (mA @ mB) (cA @ cB) (B, N, M) =
           Inr (imgAB, snd (get_component_model (last sB) (last mB) (last cB)))"
      "shape imgAB = (B, N, M)" "wf_ndarray imgAB"
    and pAB: "\<forall>c<B. \<forall>i<N. \<forall>j<M. elems imgAB ! c ! i ! j =
                (\<Sum>l<length sA + length sB.
                    patch_at ((sA @ sB) ! l) ((mA @ mB) ! l) ((cA @ cB) ! l) c i j)"
    by auto
  have split: "(\<Sum>l<length sA + length sB.
                    patch_at ((sA @ sB) ! l) ((mA @ mB) ! l) ((cA @ cB) ! l) c i j) =
               (\<Sum>l<length sA. patch_at (sA ! l) (mA ! l) (cA ! l) c i j) +
               (\<Sum>l<length sB. patch_at (sB ! l) (mB ! l) (cB ! l) c i j)" for c i j
    unfolding sum_lessThan_add using lens by (simp add: nth_append)
  have px: "elems imgAB ! c ! i ! j =
       elems imgA ! bidx B c ! bidx N i ! bidx M j + elems imgB ! bidx B c ! bidx N i ! bidx M j"
    if "c < B" "i < N" "j < M" for c i j
    using that pA pB pAB by (simp add: split bidx_lt)
  have "np_binop (\<lambda>u v. u + v) imgA imgB =
     Inr \<lparr>shape = (B, N, M),
          elems = map (\<lambda>c. map (\<lambda>i. map (\<lambda>j.
                    elems imgA ! bidx B c ! bidx N i ! bidx M j + elems imgB ! bidx B c ! bidx N i ! bidx M j)
                  [0..<M]) [0..<N]) [0..<B]\<rparr>"
    by (simp add: np_binop_def A(2) B(2))
  also have "\<dots> = Inr imgAB"
    using ndarray_eqI [OF AB(3) AB(2), of "\<lambda>c i j. elems imgA ! bidx B c ! bidx N i ! bidx M j + elems imgB ! bidx B c ! bidx N i ! bidx M j"] px
    by simp
  finally show ?thesis using A(1) B(1) AB(1) unfolding shp by blast
qed

subsection \<open>The gradient of a component inside the image\<close>

lemma grad_logL_same_shape:
  assumes "shape data = (B, N, M)" "shape model = (B, N, M)"
  shows "grad_logL data model w =
     Inr \<lparr>shape = (B, N, M),
          elems = map (\<lambda>c. map (\<lambda>i. map (\<lambda>j.
                     w * (elems model ! bidx B c ! bidx N i ! bidx M j
                          - elems data ! bidx B c ! bidx N i ! bidx M j))
                  [0..<M]) [0..<N]) [0..<B]\<rparr>"
  using assms by (simp add: grad_logL_def np_binop_def np_scale_def comp_def)

lemma grad_logL_props:
  assumes "shape data = (B, N, M)" "shape model = (B, N, M)"
  shows "\<exists>g. grad_logL data model w = Inr g \<and> shape g = (B, N, M) \<and> wf_ndarray g \<and>
     (\<forall>c<B. \<forall>i<N. \<forall>j<M. elems g ! c ! i ! j = w * (elems model ! c ! i ! j - elems data ! c ! i ! j))"
  unfolding grad_logL_same_shape [OF assms]
  by (auto simp: bidx_lt intro!: wf_ndarrayI [of _ B N M])

lemma slice_box_inside:
  assumes wf: "wf_ndarray a" and sh: "shape a = (B, N, M)" and w: "window_inside (B, N, M) (y, x)"
  shows "shape (slice_box a (Slice (y - 1) (y + 2), Slice (x - 1) (x + 2))) = (B, 3, 3)"
    and "length (elems (slice_box a (Slice (y - 1) (y + 2), Slice (x - 1) (x + 2)))) = B"
    and "c < B \<Longrightarrow> i < 3 \<Longrightarrow> j < 3 \<Longrightarrow>
          elems (slice_box a (Slice (y - 1) (y + 2), Slice (x - 1) (x + 2))) ! c ! i ! j =
          elems a ! c ! (nat (y - 1) + i) ! (nat (x - 1) + j)"
proof -
  from w have yb: "1 \<le> y" "y + 2 \<le> int N" and xb: "1 \<le> x" "x + 2 \<le> int M"
    by (auto simp: window_inside_def)
  note si = slice_indices_inside [OF yb] slice_indices_inside [OF xb]
  have eq: "slice_box a (Slice (y - 1) (y + 2), Slice (x - 1) (x + 2)) =
     \<lparr>shape = (B, 3, 3),
      elems = map (\<lambda>ch. map (\<lambda>row. take 3 (drop (nat (x - 1)) row))
                              (take 3 (drop (nat (y - 1)) ch))) (elems a)\<rparr>"
    using sh by (simp add: slice_box_def si del: slice_indices.simps)
  show "shape (slice_box a (Slice (y - 1) (y + 2), Slice (x - 1) (x + 2))) = (B, 3, 3)"
    by (simp add: eq)
  show "length (elems (slice_box a (Slice (y - 1) (y + 2), Slice (x - 1) (x + 2)))) = B"
    by (simp add: eq wf_ndarray_nth(1) [OF wf sh])
  assume c: "c < B" and i: "i < 3" and j: "j < 3"
  have ry: "nat (y - 1) + 3 \<le> N" using yb by linarith
  have rx: "nat (x - 1) + 3 \<le> M" using xb by linarith
  have lc: "length (elems a ! c) = N" by (rule wf_ndarray_nth(2) [OF wf sh c])
  have lr: "length (elems a ! c ! (nat (y - 1) + i)) = M"
    using wf_ndarray_nth(3) [OF wf sh c, of "nat (y - 1) + i"] ry i by simp
  show "elems (slice_box a (Slice (y - 1) (y + 2), Slice (x - 1) (x + 2))) ! c ! i ! j =
          elems a ! c ! (nat (y - 1) + i) ! (nat (x - 1) + j)"
    using c i j ry rx lc lr by (simp add: eq wf_ndarray_nth(1) [OF wf sh])
qed

lemma sum_list_upt: "sum_list (map f [0..<n]) = (\<Sum>i<n. f i)"
  by (simp add: interv_sum_list_conv_sum_set_nat lessThan_atLeast0)

lemma einsum_jk_3x3:
  assumes "shape a = (B, 3, 3)" "length (elems a) = B" "is_3x3 m"
  shows "\<exists>g. einsum_jk a m = Inr g \<and> length g = B \<and>
           (\<forall>c<B. g ! c = (\<Sum>j<3. \<Sum>k<3. elems a ! c ! j ! k * m ! j ! k))"
  using assms by (simp add: einsum_jk_def shape2_3x3 sum_list_upt bidx_def)

lemma einsum_i_3x3:
  assumes "shape a = (B, 3, 3)" "length sed = B"
  shows "\<exists>g. einsum_i sed a = Inr g \<and> length g = 3 \<and>
           (\<forall>j<3. \<forall>k<3. g ! j ! k = (\<Sum>i<B. sed ! i * elems a ! i ! j ! k))"
proof -
  have "(\<Sum>i<B. sed ! bidx B i * elems a ! bidx B i ! j ! k) = (\<Sum>i<B. sed ! i * elems a ! i ! j ! k)" for j k
    by (rule sum.cong) (simp_all add: bidx_lt)
  then show ?thesis using assms by (simp add: einsum_i_def sum_list_upt)
qed

lemma grad_get_component_model_inside:
  assumes wf: "wf_ndarray g" and sh: "shape g = (B, N, M)" and w: "window_inside (B, N, M) center"
    and m: "is_3x3 morph" and s: "length sed = B"
  shows "\<exists>sg mg. grad_get_component_model g model sed morph center = Inr (sg, mg) \<and>
     length sg = B \<and>
     (\<forall>c<B. sg ! c = (\<Sum>i<3. \<Sum>j<3.
         elems g ! c ! (nat (fst center - 1) + i) ! (nat (snd center - 1) + j) * morph ! i ! j)) \<and>
     (\<forall>i<3. \<forall>j<3. mg ! i ! j = (\<Sum>c<B.
         sed ! c * elems g ! c ! (nat (fst center - 1) + i) ! (nat (snd center - 1) + j)))"
proof -
  obtain y x where c: "center = (y, x)" by (cases center)
  let ?v = "slice_box g (Slice (y - 1) (y + 2), Slice (x - 1) (x + 2))"
  note sb = slice_box_inside [OF wf sh w [unfolded c]]
  from einsum_jk_3x3 [OF sb(1) sb(2) m] obtain sg where
    sg: "einsum_jk ?v morph = Inr sg" "length sg = B"
        "\<forall>c<B. sg ! c = (\<Sum>j<3. \<Sum>k<3. elems ?v ! c ! j ! k * morph ! j ! k)" by blast
  from einsum_i_3x3 [OF sb(1) s] obtain mg where
    mg: "einsum_i sed ?v = Inr mg"
        "\<forall>j<3. \<forall>k<3. mg ! j ! k = (\<Sum>i<B. sed ! i * elems ?v ! i ! j ! k)" by blast
  have "grad_get_component_model g model sed morph center = Inr (sg, mg)"
    by (simp add: grad_get_component_model_def c sg(1) mg(1))
  moreover have "\<forall>c<B. sg ! c = (\<Sum>i<3. \<Sum>j<3.
         elems g ! c ! (nat (y - 1) + i) ! (nat (x - 1) + j) * morph ! i ! j)"
    using sg(3) by (simp add: sb(3))
  moreover have "\<forall>i<3. \<forall>j<3. mg ! i ! j = (\<Sum>c<B.
         sed ! c * elems g ! c ! (nat (y - 1) + i) ! (nat (x - 1) + j))"
    using mg(2) by (simp add: sb(3))
  ultimately show ?thesis using sg(2) c by simp
qed


lemma grad_get_full_model_ok:
  assumes ok: "comps_ok (B, N, M) seds morphs centers"
    and wf: "wf_ndarray g" and sh: "shape g = (B, N, M)"
  shows "\<exists>sgs mgs. grad_get_full_model g model centers seds morphs = Inr (sgs, mgs) \<and>
     length sgs = length seds \<and> length mgs = length seds \<and>
     (\<forall>k<length seds.
        grad_get_component_model g model (seds ! k) (morphs ! k) (centers ! k) = Inr (sgs ! k, mgs ! k))"
proof -
  let ?K = "length seds"
  let ?I = "\<lambda>k st. case st of (sgs, mgs) \<Rightarrow> length sgs = k \<and> length mgs = k \<and>
      (\<forall>i<k. grad_get_component_model g model (seds ! i) (morphs ! i) (centers ! i) = Inr (sgs ! i, mgs ! i))"
  from ok have lens: "length morphs = ?K" "length centers = ?K" by (auto simp: comps_ok_def)
  have "\<exists>s'. for_range (grad_get_full_model_body g model centers seds morphs) [0..<?K] ([], []) = Inr s'
          \<and> ?I ?K s'"
  proof (rule for_range_upt_inv [where I = ?I])
    show "?I 0 ([], [])" by simp
    show "0 \<le> ?K" by simp
    fix k and st :: "real list list \<times> real list list list"
    assume k: "0 \<le> k" "k < ?K" and I: "?I k st"
    obtain sgs mgs where st: "st = (sgs, mgs)" by (cases st)
    from ok k(2) have c: "length (seds ! k) = B" "is_3x3 (morphs ! k)" "window_inside (B, N, M) (centers ! k)"
      by (auto simp: comps_ok_def)
    from grad_get_component_model_inside [OF wf sh c(3) c(2) c(1), of model] obtain a b where
      ab: "grad_get_component_model g model (seds ! k) (morphs ! k) (centers ! k) = Inr (a, b)" by blast
    have "grad_get_full_model_body g model centers seds morphs k st = Inr (sgs @ [a], mgs @ [b])"
      using k(2) lens by (simp add: grad_get_full_model_body_def st py_get_def ab)
    moreover have "?I (Suc k) (sgs @ [a], mgs @ [b])"
      using I ab unfolding st by (auto simp: nth_append less_Suc_eq)
    ultimately show "\<exists>s'. grad_get_full_model_body g model centers seds morphs k st = Inr s' \<and> ?I (Suc k) s'"
      by blast
  qed
  then obtain s' where
    r: "for_range (grad_get_full_model_body g model centers seds morphs) [0..<?K] ([], []) = Inr s'"
    and I: "?I ?K s'" by blast
  obtain sgs mgs where s': "s' = (sgs, mgs)" by (cases s')
  show ?thesis using r I unfolding s' by (auto simp: grad_get_full_model_def lens)
qed

subsection \<open>Components that do not fit the image\<close>

lemma axis_window_ok_iff:
  "axis_window_ok n y \<longleftrightarrow> snd (slice_indices (Slice (y - 1) (y + 2)) n) - fst (slice_indices (Slice (y - 1) (y + 2)) n) = 3"
  by (auto simp: axis_window_ok_def slice_bound_def min_def max_def split: if_splits)

lemma iadd_box_shape:
  "iadd_box model bx patch = Inr m' \<Longrightarrow> shape m' = shape model"
  by (auto simp: iadd_box_def split: prod.splits if_splits)

lemma iadd_box_error:
  "iadd_box model bx patch = Inl e \<Longrightarrow> e = ValueError"
  by (auto simp: iadd_box_def split: prod.splits if_splits)

lemma iadd_box_bad:
  assumes "shape model = (B, N, M)" "is_3x3 morph"
    and "(length sed \<noteq> B \<and> length sed \<noteq> 1) \<or> \<not> axis_window_ok N y \<or> \<not> axis_window_ok M x"
  shows "iadd_box model (Slice (y - 1) (y + 2), Slice (x - 1) (x + 2)) (outer sed morph) = Inl ValueError"
proof -
  obtain r0 r1 where r: "slice_indices (Slice (y - 1) (y + 2)) N = (r0, r1)" by fastforce
  obtain c0 c1 where c: "slice_indices (Slice (x - 1) (x + 2)) M = (c0, c1)" by fastforce
  from assms(3) have "(length sed \<noteq> B \<and> length sed \<noteq> 1) \<or> r1 - r0 \<noteq> 3 \<or> c1 - c0 \<noteq> 3"
    unfolding axis_window_ok_iff r c by simp
  then show ?thesis
    using assms(1) by (auto simp: iadd_box_def outer_shape [OF assms(2)] r c simp del: slice_indices.simps)
qed

lemma get_full_model_body_cases:
  assumes "length morphs = length seds" "length centers = length seds" "k < length seds"
  shows "get_full_model_body seds morphs centers k (m, bs, b) = Inl ValueError \<or>
         (\<exists>m' bs' b'. get_full_model_body seds morphs centers k (m, bs, b) = Inr (m', bs', b')
              \<and> shape m' = shape m)"
proof -
  obtain patch bx where g: "get_component_model (seds ! k) (morphs ! k) (centers ! k) = (patch, bx)"
    by (rule prod.exhaust)
  show ?thesis
  proof (cases "iadd_box m bx patch")
    case (Inl e)
    then show ?thesis using assms iadd_box_error [OF Inl]
      by (simp add: get_full_model_body_def py_get_def g)
  next
    case (Inr m')
    then show ?thesis using assms iadd_box_shape [OF Inr]
      by (simp add: get_full_model_body_def py_get_def g)
  qed
qed

lemma get_full_model_body_bad:
  assumes "length morphs = length seds" "length centers = length seds" "k < length seds"
    and "shape m = (B, N, M)" "is_3x3 (morphs ! k)" "centers ! k = (y, x)"
    and "(length (seds ! k) \<noteq> B \<and> length (seds ! k) \<noteq> 1) \<or> \<not> axis_window_ok N y \<or> \<not> axis_window_ok M x"
  shows "get_full_model_body seds morphs centers k (m, bs, b) = Inl ValueError"
  using assms(1-3) iadd_box_bad [OF assms(4,5,7)]
  by (simp add: get_full_model_body_def py_get_def get_component_model_def assms(6))

lemma for_range_bad:
  assumes lens: "length morphs = length seds" "length centers = length seds"
    and ks: "\<forall>i\<in>set ks. i < length seds"
    and m: "shape m = (B, N, M)"
    and k: "k \<in> set ks" "is_3x3 (morphs ! k)" "centers ! k = (y, x)"
    and bad: "(length (seds ! k) \<noteq> B \<and> length (seds ! k) \<noteq> 1) \<or> \<not> axis_window_ok N y \<or> \<not> axis_window_ok M x"
  shows "for_range (get_full_model_body seds morphs centers) ks (m, bs, b) = Inl ValueError"
  using ks m k(1)
proof (induction ks arbitrary: m bs b)
  case Nil
  then show ?case by simp
next
  case (Cons i ks)
  from Cons.prems(1) have i: "i < length seds" by simp
  show ?case
  proof (cases "i = k")
    case True
    then show ?thesis
      using get_full_model_body_bad [OF lens i [unfolded True] Cons.prems(2) k(2,3) bad, of bs b]
      by simp
  next
    case False
    with Cons.prems(3) have kin: "k \<in> set ks" by simp
    from get_full_model_body_cases [OF lens i, of m bs b] show ?thesis
    proof
      assume "get_full_model_body seds morphs centers i (m, bs, b) = Inl ValueError"
      then show ?thesis by simp
    next
      assume "\<exists>m' bs' b'. get_full_model_body seds morphs centers i (m, bs, b) = Inr (m', bs', b')
              \<and> shape m' = shape m"
      then obtain m' bs' b' where
        st: "get_full_model_body seds morphs centers i (m, bs, b) = Inr (m', bs', b')"
        and sh: "shape m' = shape m" by blast
      have "for_range (get_full_model_body seds morphs centers) ks (m', bs', b') = Inl ValueError"
        using Cons.IH [of m' bs' b'] Cons.prems(1,2) sh kin by simp
      then show ?thesis by (simp add: st)
    qed
  qed
qed

text \<open>
  The gradient of one component is decided by shapes alone: the view that the slices
  select has \<open>window_len\<close> rows and columns, and each contraction broadcasts an axis of
  length 1.
\<close>

lemma window_len_3_iff: "window_len n y = 3 \<longleftrightarrow> axis_window_ok n y"
  by (simp add: window_len_def axis_window_ok_iff)

lemma window_len_below_last: "0 < n \<Longrightarrow> window_len n (int n) = 1"
  by (simp add: window_len_def slice_bound_def)

lemma slice_box_shape:
  "shape a = (B, N, M) \<Longrightarrow>
   shape (slice_box a (Slice (y - 1) (y + 2), Slice (x - 1) (x + 2))) = (B, window_len N y, window_len M x)"
  by (simp add: slice_box_def window_len_def)

lemma bc_dim_3: "bc_dim h 3 = None \<longleftrightarrow> h \<noteq> 3 \<and> h \<noteq> 1"
  by (simp add: bc_dim_def)

lemma bc_dim_None: "bc_dim a b = None \<longleftrightarrow> a \<noteq> b \<and> a \<noteq> 1 \<and> b \<noteq> 1"
  by (simp add: bc_dim_def)

lemma einsum_jk_cases:
  assumes "shape a = (B, h, w)" "is_3x3 m"
  shows "(h \<noteq> 3 \<and> h \<noteq> 1) \<or> (w \<noteq> 3 \<and> w \<noteq> 1) \<Longrightarrow> einsum_jk a m = Inl ValueError"
    and "\<not> ((h \<noteq> 3 \<and> h \<noteq> 1) \<or> (w \<noteq> 3 \<and> w \<noteq> 1)) \<Longrightarrow> \<exists>g. einsum_jk a m = Inr g"
proof -
  have e: "einsum_jk a m =
     (case (bc_dim h 3, bc_dim w 3) of
           (Some J, Some K) \<Rightarrow>
             Inr (map (\<lambda>ch. sum_list (map (\<lambda>j. sum_list (map (\<lambda>k.
                         ch ! bidx h j ! bidx w k * m ! bidx 3 j ! bidx 3 k)
                       [0..<K])) [0..<J])) (elems a))
         | _ \<Rightarrow> Inl ValueError)"
    using assms by (simp add: einsum_jk_def shape2_3x3)
  show "(h \<noteq> 3 \<and> h \<noteq> 1) \<or> (w \<noteq> 3 \<and> w \<noteq> 1) \<Longrightarrow> einsum_jk a m = Inl ValueError"
    unfolding e using bc_dim_3 [of h] bc_dim_3 [of w]
    by (auto split: option.splits)
  show "\<not> ((h \<noteq> 3 \<and> h \<noteq> 1) \<or> (w \<noteq> 3 \<and> w \<noteq> 1)) \<Longrightarrow> \<exists>g. einsum_jk a m = Inr g"
    unfolding e using bc_dim_3 [of h] bc_dim_3 [of w]
    by (auto split: option.splits)
qed

lemma einsum_i_cases:
  assumes "shape a = (B, h, w)"
  shows "length sed \<noteq> B \<and> length sed \<noteq> 1 \<and> B \<noteq> 1 \<Longrightarrow> einsum_i sed a = Inl ValueError"
    and "\<not> (length sed \<noteq> B \<and> length sed \<noteq> 1 \<and> B \<noteq> 1) \<Longrightarrow> \<exists>g. einsum_i sed a = Inr g"
  using assms bc_dim_None [of "length sed" B]
  by (auto simp: einsum_i_def split: option.splits)

lemma grad_get_component_model_cases:
  assumes sh: "shape chain_grad = (B, N, M)" and m: "is_3x3 morph"
  shows "grad_rejects (B, N, M) (length sed) center \<Longrightarrow>
           grad_get_component_model chain_grad model sed morph center = Inl ValueError"
    and "\<not> grad_rejects (B, N, M) (length sed) center \<Longrightarrow>
           \<exists>g. grad_get_component_model chain_grad model sed morph center = Inr g"
proof -
  obtain y x where c: "center = (y, x)" by (cases center)
  let ?v = "slice_box chain_grad (Slice (y - 1) (y + 2), Slice (x - 1) (x + 2))"
  note vs = slice_box_shape [OF sh, of y x]
  note jk = einsum_jk_cases [OF vs m]
  note ic = einsum_i_cases [OF vs, of sed]
  have unf: "grad_get_component_model chain_grad model sed morph center =
      ebind (einsum_jk ?v morph) (\<lambda>sed_grad.
           ebind (einsum_i sed ?v) (\<lambda>morph_grad. Inr (sed_grad, morph_grad)))"
    by (simp add: grad_get_component_model_def c Let_def)
  show "grad_get_component_model chain_grad model sed morph center = Inl ValueError"
    if r: "grad_rejects (B, N, M) (length sed) center"
  proof (cases "(window_len N y \<noteq> 3 \<and> window_len N y \<noteq> 1) \<or> (window_len M x \<noteq> 3 \<and> window_len M x \<noteq> 1)")
    case True
    from jk(1) [OF True] show ?thesis by (simp add: unf)
  next
    case False
    with r have "length sed \<noteq> B \<and> length sed \<noteq> 1 \<and> B \<noteq> 1"
      by (auto simp: grad_rejects_def c)
    from ic(1) [OF this] jk(2) [OF False] show ?thesis by (auto simp: unf)
  qed
  show "\<exists>g. grad_get_component_model chain_grad model sed morph center = Inr g"
    if r: "\<not> grad_rejects (B, N, M) (length sed) center"
  proof -
    from r have a: "\<not> ((window_len N y \<noteq> 3 \<and> window_len N y \<noteq> 1) \<or> (window_len M x \<noteq> 3 \<and> window_len M x \<noteq> 1))"
      and b: "\<not> (length sed \<noteq> B \<and> length sed \<noteq> 1 \<and> B \<noteq> 1)"
      by (auto simp: grad_rejects_def c)
    from jk(2) [OF a] ic(2) [OF b] show ?thesis by (auto simp: unf)
  qed
qed


lemma render_rejects_bad:
  "render_rejects (B, N, M) n (y, x) \<longleftrightarrow>
     (n \<noteq> B \<and> n \<noteq> 1) \<or> \<not> axis_window_ok N y \<or> \<not> axis_window_ok M x"
  by (simp add: render_rejects_def window_len_3_iff)

subsection \<open>The box for int64 centers\<close>

text \<open>
  Away from the two ends of the int64 range nothing wraps, and the box of an int64 center
  is the box of its value. This covers every center whose window lies inside an image.
\<close>

lemma sint64_sub1:
  fixes y :: "64 word"
  assumes "- (2 ^ 63) < sint y"
  shows "sint (y - 1) = sint y - 1"
proof -
  have "sint y < 2 ^ 63" using sint_less [of y] by simp
  with assms have "signed_take_bit 63 (sint y - 1) = sint y - 1"
    by (intro signed_take_bit_int_eq_self) simp_all
  then show ?thesis by (simp add: sint_word_ariths)
qed

lemma sint64_add2:
  fixes y :: "64 word"
  assumes "sint y < 2 ^ 63 - 2"
  shows "sint (y + 2) = sint y + 2"
proof -
  have "- (2 ^ 63) \<le> sint y" using sint_greater_eq [of y] by simp
  with assms have "signed_take_bit 63 (sint y + 2) = sint y + 2"
    by (intro signed_take_bit_int_eq_self) simp_all
  then show ?thesis by (simp add: sint_word_ariths)
qed

lemma get_component_model_int64_in_range:
  assumes "- (2 ^ 63) < sint v" "sint v < 2 ^ 63 - 2" "- (2 ^ 63) < sint u" "sint u < 2 ^ 63 - 2"
  shows "get_component_model_int64 sed morph (v, u) = get_component_model sed morph (sint v, sint u)"
  using assms
  by (simp add: get_component_model_int64_def get_component_model_def sint64_sub1 sint64_add2)

subsection \<open>The loops of the scene builder\<close>

lemma py_set_ok: "k < length xs \<Longrightarrow> py_set xs k v = Inr (xs[k := v])"
  by (simp add: py_set_def)

lemma randint_range:
  assumes "low < high"
  shows "\<exists>r g'. randint low high g = Inr (r, g') \<and> low \<le> r \<and> r < high"
proof -
  have "int (g 0 mod nat (high - low)) < high - low"
    using assms by (simp add: zless_nat_eq_int_zless [symmetric] del: zless_nat_conj)
  then show ?thesis using assms by (simp add: randint_def)
qed

lemma outer_rev_shape: "is_3x3 m \<Longrightarrow> shape (outer_rev m sed) = (length sed, 3, 3)"
  by (simp add: outer_rev_def shape2_3x3)

lemma rand_length: "length (fst (rand n g)) = n"
  by (simp add: rand_def)

lemma morphs_loop:
  "\<exists>ms. for_range (\<lambda>k ms. py_set ms k v) [0..<K] (replicate K u) = Inr ms \<and> length ms = K
        \<and> (\<forall>i<K. ms ! i = v)"
proof -
  let ?I = "\<lambda>k ms. length ms = K \<and> (\<forall>i<k. ms ! i = v)"
  have "\<exists>ms. for_range (\<lambda>k ms. py_set ms k v) [0..<K] (replicate K u) = Inr ms \<and> ?I K ms"
  proof (rule for_range_upt_inv [where I = ?I])
    show "?I 0 (replicate K u)" by simp
    show "0 \<le> K" by simp
    fix k and ms :: "'a list" assume "0 \<le> k" "k < K" "?I k ms"
    then show "\<exists>s'. py_set ms k v = Inr s' \<and> ?I (Suc k) s'"
      by (auto simp: py_set_ok nth_list_update less_Suc_eq)
  qed
  then show ?thesis by blast
qed

lemma build_scene_body_ok:
  assumes N: "8 < N" and M: "8 < M" and k: "k < K"
    and sh: "shape images = (B, N, M)"
    and lens: "length centers = K" "length seds = K" "length morphs = K"
    and mk: "is_3x3 (morphs ! k)"
  shows "\<exists>g' images' center sed.
      build_scene_body B morphs k (g, images, centers, seds) =
        Inr (g', images', centers[k := center], seds[k := sed])
      \<and> shape images' = (B, N, M) \<and> center_margin (B, N, M) center"
proof -
  from N have "(4::int) < int N - 4" by simp
  from randint_range [OF this, of g] obtain cy g1 where
    r1: "randint 4 (int N - 4) g = Inr (cy, g1)" and cy: "4 \<le> cy" "cy < int N - 4" by blast
  from M have "(4::int) < int M - 4" by simp
  from randint_range [OF this, of g1] obtain cx g2 where
    r2: "randint 4 (int M - 4) g1 = Inr (cx, g2)" and cx: "4 \<le> cx" "cx < int M - 4" by blast
  let ?sed = "map (\<lambda>v. v * (500 / sum_list (fst (rand B g2)))) (fst (rand B g2))"
  have w: "window_inside (B, N, M) (cy, cx)"
    using cy cx by (simp add: window_inside_def)
  have p: "shape (outer_rev (morphs ! k) ?sed) = (B, 3, 3)"
    using mk by (simp add: outer_rev_shape rand_length)
  note ia = iadd_box_inside [OF sh p w]
  have "center_margin (B, N, M) (cy, cx)"
    using cy cx by (simp add: center_margin_def)
  moreover have "\<exists>images'. build_scene_body B morphs k (g, images, centers, seds) =
        Inr (snd (rand B g2), images', centers[k := (cy, cx)], seds[k := ?sed])
        \<and> shape images' = (B, N, M)"
    using k lens sh
    by (simp add: build_scene_body_def r1 r2 Let_def py_set_ok py_get_def ia
             del: times_divide_eq_right)
  ultimately show ?thesis by blast
qed

lemma build_scene_small_image:
  assumes "N \<le> 8" "0 < K"
  shows "build_scene (B, N, M) K g = Inl ValueError"
proof -
  let ?v = "[[0, 1, 2], [3, 4, 5], [6, 7, 8]] :: real list list"
  from morphs_loop [of ?v K "[[0, 0, 0], [0, 1, 0], [0, 0, 0]]"] obtain morphs where
    ml: "for_range (\<lambda>k ms. py_set ms k ?v) [0..<K] (replicate K [[0, 0, 0], [0, 1, 0], [0, 0, 0]]) = Inr morphs"
    by blast
  have "build_scene_body B morphs 0 (g, np_zeros (B, N, M), cs, ss) = Inl ValueError" for cs ss
    using assms(1) by (simp add: build_scene_body_def randint_def)
  then have "for_range (build_scene_body B morphs) [0..<K] (g, np_zeros (B, N, M), cs, ss) = Inl ValueError"
    for cs ss
    using assms(2) by (simp add: upt_conv_Cons)
  then show ?thesis by (simp add: build_scene_def ml)
qed

subsection \<open>What the pipeline writes to the store\<close>

lemma get_full_model_body_h_frame:
  assumes "get_full_model_body_h sa ma ca m k st h = (r, h')"
  shows "length h' = length h \<and> (\<forall>a. a \<noteq> m \<longrightarrow> h' ! a = h ! a)"
  using assms by (auto simp: get_full_model_body_h_def split: sum.splits prod.splits)

lemma for_range_h_frame:
  assumes body: "\<And>k s h r h'. body k s h = (r, h') \<Longrightarrow>
                   length h' = length h \<and> (\<forall>a. a \<noteq> m \<longrightarrow> h' ! a = h ! a)"
    and run: "for_range_h body ks s h = (r, h')"
  shows "length h' = length h \<and> (\<forall>a. a \<noteq> m \<longrightarrow> h' ! a = h ! a)"
  using run
proof (induction ks arbitrary: s h)
  case Nil
  then show ?case by simp
next
  case (Cons k ks)
  obtain r1 h1 where b: "body k s h = (r1, h1)" by (cases "body k s h")
  note f = body [OF b]
  show ?case
  proof (cases r1)
    case (Inl e)
    with Cons.prems b f show ?thesis by simp
  next
    case (Inr s1)
    with Cons.prems b have "for_range_h body ks s1 h1 = (r, h')" by simp
    from Cons.IH [OF this] f show ?thesis by simp
  qed
qed

lemma get_full_model_h_frame:
  assumes "get_full_model_h sa ma ca shp h = (r, h')"
  shows "length h' = Suc (length h) \<and> (\<forall>a<length h. h' ! a = h ! a)"
proof -
  let ?h1 = "h @ [Array3 (np_zeros shp)]"
  show ?thesis
  proof (cases "get_seds ?h1 sa")
    case (Inl e)
    with assms show ?thesis by (auto simp: get_full_model_h_def alloc_def nth_append)
  next
    case (Inr ss)
    obtain r2 h2 where l: "for_range_h (get_full_model_body_h sa ma ca (length h))
                     [0..<length ss] ([], None) ?h1 = (r2, h2)"
      by (rule prod.exhaust)
    from for_range_h_frame [OF get_full_model_body_h_frame l]
    have f: "length h2 = Suc (length h)" "\<forall>a<length h. h2 ! a = h ! a"
      by (auto simp: nth_append)
    from assms Inr l have "h' = h2"
      by (auto simp: get_full_model_h_def alloc_def split: sum.splits option.splits)
    with f show ?thesis by simp
  qed
qed

lemma grad_logL_h_frame:
  assumes "grad_logL_h d m w h = (r, h')"
  shows "length h \<le> length h' \<and> (\<forall>a<length h. h' ! a = h ! a)"
  using assms by (auto simp: grad_logL_h_def alloc_def nth_append split: sum.splits)

lemma grad_get_full_model_h_frame:
  "snd (grad_get_full_model_h g m ca sa ma h) = h"
  by (simp add: grad_get_full_model_h_def)

lemma calculate_gradients_direct_h_keeps:
  "length h \<le> length (snd (calculate_gradients_direct_h images centers seds morphs h)) \<and>
   (\<forall>a<length h. snd (calculate_gradients_direct_h images centers seds morphs h) ! a = h ! a)"
proof (cases "get_image h images")
  case (Inl e)
  then show ?thesis by (simp add: calculate_gradients_direct_h_def)
next
  case (Inr im)
  obtain r1 h1 where g1: "get_full_model_h seds morphs centers (shape im) h = (r1, h1)"
    by (rule prod.exhaust)
  note f1 = get_full_model_h_frame [OF g1]
  show ?thesis
  proof (cases r1)
    case (Inl e)
    then show ?thesis using Inr g1 f1 by (simp add: calculate_gradients_direct_h_def)
  next
    case r1: (Inr mb)
    obtain model boxes where mb: "mb = (model, boxes)" by (cases mb)
    obtain r2 h2 where g2: "grad_logL_h images model 1 h1 = (r2, h2)"
      by (rule prod.exhaust)
    note f2 = grad_logL_h_frame [OF g2]
    have keep: "length h \<le> length h2" "\<forall>a<length h. h2 ! a = h ! a" using f1 f2 by simp_all
    have "snd (calculate_gradients_direct_h images centers seds morphs h) = h2"
      using Inr g1 r1 mb g2
      by (cases r2) (simp_all add: calculate_gradients_direct_h_def grad_get_full_model_h_frame)
    then show ?thesis using keep by simp
  qed
qed

subsection \<open>The store-level pipeline computes the same gradients\<close>

text \<open>
  When the four addresses hold the input arrays, the call on the store returns what
  \<open>calculate_gradients_direct\<close> returns on their contents, exceptions included.
\<close>

lemma get_extend:
  assumes "length h \<le> length h'" "\<forall>i<length h. h' ! i = h ! i"
  shows "get_image h a = Inr x \<Longrightarrow> get_image h' a = Inr x"
    and "get_seds h a = Inr ss \<Longrightarrow> get_seds h' a = Inr ss"
    and "get_morphs h a = Inr ms \<Longrightarrow> get_morphs h' a = Inr ms"
    and "get_centers h a = Inr cs \<Longrightarrow> get_centers h' a = Inr cs"
  using assms
  by (auto simp: get_image_def get_seds_def get_morphs_def get_centers_def split: if_splits)

lemma get_update:
  assumes "get_image h m = Inr x"
  shows "get_image (h[m := Array3 y]) m = Inr y"
    and "get_seds h a = Inr ss \<Longrightarrow> get_seds (h[m := Array3 y]) a = Inr ss"
    and "get_morphs h a = Inr ms \<Longrightarrow> get_morphs (h[m := Array3 y]) a = Inr ms"
    and "get_centers h a = Inr cs \<Longrightarrow> get_centers (h[m := Array3 y]) a = Inr cs"
  using assms
  by (auto simp: get_image_def get_seds_def get_morphs_def get_centers_def nth_list_update
           split: if_splits obj.splits)

lemma get_full_model_body_h_value:
  assumes "get_seds h sa = Inr seds" "get_morphs h ma = Inr morphs"
    "get_centers h ca = Inr centers" "get_image h m = Inr model"
  shows "get_full_model_body_h sa ma ca m k (boxes, b) h =
     (case get_full_model_body seds morphs centers k (model, boxes, b) of
        Inl e \<Rightarrow> (Inl e, h)
      | Inr st \<Rightarrow> (Inr (snd st), h[m := Array3 (fst st)]))"
  by (simp add: get_full_model_body_h_def get_full_model_body_def assms ebind_def
           split: sum.splits prod.splits)

lemma for_range_h_value:
  assumes "get_seds h sa = Inr seds" "get_morphs h ma = Inr morphs"
    "get_centers h ca = Inr centers" "get_image h m = Inr model"
  shows "fst (for_range_h (get_full_model_body_h sa ma ca m) ks (boxes, b) h) =
           map_sum id snd (for_range (get_full_model_body seds morphs centers) ks (model, boxes, b))
       \<and> (\<forall>st. for_range (get_full_model_body seds morphs centers) ks (model, boxes, b) = Inr st \<longrightarrow>
             get_image (snd (for_range_h (get_full_model_body_h sa ma ca m) ks (boxes, b) h)) m
               = Inr (fst st))"
  using assms
proof (induction ks arbitrary: h model boxes b)
  case Nil
  then show ?case by simp
next
  case (Cons k ks)
  note step = get_full_model_body_h_value [OF Cons.prems, of k boxes b]
  show ?case
  proof (cases "get_full_model_body seds morphs centers k (model, boxes, b)")
    case (Inl e)
    then show ?thesis using step by simp
  next
    case (Inr st)
    obtain model' boxes' b' where st: "st = (model', boxes', b')" by (cases st)
    let ?h = "h[m := Array3 model']"
    have pre: "get_seds ?h sa = Inr seds" "get_morphs ?h ma = Inr morphs"
      "get_centers ?h ca = Inr centers" "get_image ?h m = Inr model'"
      using get_update [OF Cons.prems(4)] Cons.prems(1-3) by simp_all
    from Cons.IH [OF pre, of boxes' b'] show ?thesis
      using step Inr st by simp
  qed
qed

lemma get_full_model_h_value:
  assumes "get_seds h sa = Inr seds" "get_morphs h ma = Inr morphs" "get_centers h ca = Inr centers"
  shows "(\<forall>e. get_full_model seds morphs centers shp = Inl e \<longrightarrow>
            fst (get_full_model_h sa ma ca shp h) = Inl e)
       \<and> (\<forall>model bx. get_full_model seds morphs centers shp = Inr (model, bx) \<longrightarrow>
            fst (get_full_model_h sa ma ca shp h) = Inr (length h, bx)
            \<and> get_image (snd (get_full_model_h sa ma ca shp h)) (length h) = Inr model)"
proof -
  let ?h1 = "h @ [Array3 (np_zeros shp)]"
  have ext: "length h \<le> length ?h1" "\<forall>i<length h. ?h1 ! i = h ! i"
    by (simp_all add: nth_append)
  have pre: "get_seds ?h1 sa = Inr seds" "get_morphs ?h1 ma = Inr morphs"
    "get_centers ?h1 ca = Inr centers"
    using get_extend [OF ext] assms by blast+
  have img: "get_image ?h1 (length h) = Inr (np_zeros shp)"
    by (simp add: get_image_def)
  let ?pure = "for_range (get_full_model_body seds morphs centers) [0..<length seds] (np_zeros shp, [], None)"
  obtain r2 h2 where l: "for_range_h (get_full_model_body_h sa ma ca (length h))
                     [0..<length seds] ([], None) ?h1 = (r2, h2)"
    by (rule prod.exhaust)
  from for_range_h_value [OF pre img, of "[0..<length seds]" "[]" None] l
  have r2: "r2 = map_sum id snd ?pure"
    and h2: "\<forall>st. ?pure = Inr st \<longrightarrow> get_image h2 (length h) = Inr (fst st)"
    by simp_all
  have unf: "get_full_model_h sa ma ca shp h =
      (case r2 of Inl e \<Rightarrow> (Inl e, h2)
       | Inr bb \<Rightarrow> (case snd bb of None \<Rightarrow> (Inl UnboundLocalError, h2)
                     | Some bx \<Rightarrow> (Inr (length h, bx), h2)))"
    by (simp add: get_full_model_h_def alloc_def pre(1) l split: sum.splits prod.splits)
  show ?thesis
  proof (cases ?pure)
    case (Inl e)
    then show ?thesis using r2 by (simp add: unf get_full_model_def)
  next
    case (Inr st)
    obtain model boxes b where st: "st = (model, boxes, b)" by (cases st)
    from h2 Inr st have "get_image h2 (length h) = Inr model" by simp
    then show ?thesis using r2 Inr st
      by (cases b) (simp_all add: unf get_full_model_def)
  qed
qed

lemma calculate_gradients_direct_h_value:
  assumes im: "get_image h ia = Inr images" and cs: "get_centers h ca = Inr centers"
    and ss: "get_seds h sa = Inr seds" and ms: "get_morphs h ma = Inr morphs"
  shows "fst (calculate_gradients_direct_h ia ca sa ma h) =
         calculate_gradients_direct images centers seds morphs"
proof -
  obtain r1 h1 where g1: "get_full_model_h sa ma ca (shape images) h = (r1, h1)"
    by (rule prod.exhaust)
  note v1 = get_full_model_h_value [OF ss ms cs, of "shape images"]
  note f1 = get_full_model_h_frame [OF g1]
  show ?thesis
  proof (cases "get_full_model seds morphs centers (shape images)")
    case (Inl e)
    with v1 g1 show ?thesis
      by (simp add: calculate_gradients_direct_h_def calculate_gradients_direct_def im)
  next
    case (Inr mb)
    obtain model bx where mb: "mb = (model, bx)" by (cases mb)
    from v1 [THEN conjunct2, rule_format, OF Inr [unfolded mb]] g1
    have r1: "r1 = Inr (length h, bx)"
      and m1: "get_image h1 (length h) = Inr model" by simp_all
    have ext1: "length h \<le> length h1" "\<forall>i<length h. h1 ! i = h ! i" using f1 by simp_all
    note in1 = get_extend(1) [OF ext1 im]
    show ?thesis
    proof (cases "grad_logL images model 1")
      case (Inl e)
      then show ?thesis using Inr mb
        by (simp add: calculate_gradients_direct_h_def calculate_gradients_direct_def im g1 r1
              grad_logL_h_def in1 m1)
    next
      case gl: (Inr g)
      let ?h2 = "h1 @ [Array3 g]"
      have ext2: "length h1 \<le> length ?h2" "\<forall>i<length h1. ?h2 ! i = h1 ! i"
        by (simp_all add: nth_append)
      have ext: "length h \<le> length ?h2" "\<forall>i<length h. ?h2 ! i = h ! i"
        using ext1 by (simp_all add: nth_append)
      have g2: "grad_logL_h ia (length h) 1 h1 = (Inr (length h1), ?h2)"
        by (simp add: grad_logL_h_def in1 m1 gl alloc_def)
      have "grad_get_full_model_h (length h1) (length h) ca sa ma ?h2 =
              (grad_get_full_model g model centers seds morphs, ?h2)"
        using get_extend(4) [OF ext cs] get_extend(2) [OF ext ss] get_extend(3) [OF ext ms]
          get_extend(1) [OF ext2 m1]
        by (simp add: grad_get_full_model_h_def) (simp add: get_image_def)
      then show ?thesis using Inr mb gl
        by (simp add: calculate_gradients_direct_h_def calculate_gradients_direct_def im g1 r1 g2)
    qed
  qed
qed

section \<open>Claims\<close>

subsection \<open>The direct gradients of every component\<close>

text \<open>
  Claim C1. For every list of components (each with a sed of the image's channel count, a
  3x3 morph and a center whose window lies inside the image) and every data image of that
  shape, \<open>calculate_gradients_direct\<close> returns, for each component \<open>k\<close>,
  \<open>sedGrad[k][c] = \<Sum>i,j. upstream[c,i,j] * morph[k][i,j]\<close> and
  \<open>morphGrad[k][i,j] = \<Sum>c. sed[k][c] * upstream[c,i,j]\<close>, where \<open>upstream\<close> is
  \<open>1 * (model - data)\<close> read in the window of component \<open>k\<close> and \<open>model\<close> is the
  rendered image.
\<close>

theorem calculate_gradients_direct_components:
  assumes wf: "wf_ndarray images" and sh: "shape images = (B, N, M)"
    and lens: "length morphs = length seds" "length centers = length seds"
    and comps: "\<forall>k<length seds. length (seds ! k) = B \<and> is_3x3 (morphs ! k) \<and>
                  window_inside (B, N, M) (centers ! k)"
    and k: "k < length seds"
  shows "\<exists>model bx sed_grads morph_grads.
     get_full_model seds morphs centers (shape images) = Inr (model, bx) \<and>
     calculate_gradients_direct images centers seds morphs = Inr (sed_grads, morph_grads) \<and>
     length sed_grads = length seds \<and> length morph_grads = length seds \<and>
     length (sed_grads ! k) = B \<and>
     (\<forall>c<B. sed_grads ! k ! c =
        (\<Sum>i<3. \<Sum>j<3. upstream_at model images 1 (centers ! k) c i j * morphs ! k ! i ! j)) \<and>
     (\<forall>i<3. \<forall>j<3. morph_grads ! k ! i ! j =
        (\<Sum>c<B. seds ! k ! c * upstream_at model images 1 (centers ! k) c i j))"
proof -
  have ok: "comps_ok (B, N, M) seds morphs centers"
    using lens comps by (simp add: comps_ok_def)
  from k have ne: "seds \<noteq> []" by auto
  from get_full_model_pixels [OF ok ne] obtain model bx where
    fm: "get_full_model seds morphs centers (B, N, M) = Inr (model, bx)"
    and msh: "shape model = (B, N, M)" and mwf: "wf_ndarray model" by blast
  from grad_logL_props [OF sh msh, of 1] obtain g where
    g: "grad_logL images model 1 = Inr g" "shape g = (B, N, M)" "wf_ndarray g"
    and gv: "\<forall>c<B. \<forall>i<N. \<forall>j<M. elems g ! c ! i ! j = 1 * (elems model ! c ! i ! j - elems images ! c ! i ! j)"
    by blast
  from grad_get_full_model_ok [OF ok g(3) g(2), of model] obtain sgs mgs where
    gg: "grad_get_full_model g model centers seds morphs = Inr (sgs, mgs)"
    and gl: "length sgs = length seds" "length mgs = length seds"
    and gk: "grad_get_component_model g model (seds ! k) (morphs ! k) (centers ! k) = Inr (sgs ! k, mgs ! k)"
    using k by blast
  from comps k have c: "length (seds ! k) = B" "is_3x3 (morphs ! k)" "window_inside (B, N, M) (centers ! k)"
    by auto
  obtain y x where yx: "centers ! k = (y, x)" by (cases "centers ! k")
  from c(3) yx have yb: "nat (y - 1) + 3 \<le> N" and xb: "nat (x - 1) + 3 \<le> M"
    by (auto simp: window_inside_def)
  have up: "elems g ! c ! (nat (y - 1) + i) ! (nat (x - 1) + j) = upstream_at model images 1 (centers ! k) c i j"
    if "c < B" "i < 3" "j < 3" for c i j
    using gv that yb xb by (simp add: upstream_at_def yx)
  from grad_get_component_model_inside [OF g(3) g(2) c(3) c(2) c(1), of model] gk
  have sl: "length (sgs ! k) = B"
    and sv: "\<forall>c<B. sgs ! k ! c = (\<Sum>i<3. \<Sum>j<3.
         elems g ! c ! (nat (y - 1) + i) ! (nat (x - 1) + j) * morphs ! k ! i ! j)"
    and mv: "\<forall>i<3. \<forall>j<3. mgs ! k ! i ! j = (\<Sum>c<B.
         seds ! k ! c * elems g ! c ! (nat (y - 1) + i) ! (nat (x - 1) + j))"
    by (auto simp: yx)
  have "calculate_gradients_direct images centers seds morphs = Inr (sgs, mgs)"
    by (simp add: calculate_gradients_direct_def sh fm g(1) gg)
  moreover have "\<forall>c<B. sgs ! k ! c =
        (\<Sum>i<3. \<Sum>j<3. upstream_at model images 1 (centers ! k) c i j * morphs ! k ! i ! j)"
    using sv by (simp add: up)
  moreover have "\<forall>i<3. \<forall>j<3. morph_grads' ! k ! i ! j =
        (\<Sum>c<B. seds ! k ! c * upstream_at model images 1 (centers ! k) c i j)"
    if "morph_grads' = mgs" for morph_grads'
    using mv that by (simp add: up)
  ultimately show ?thesis using fm gl sl by (simp add: sh)
qed

theorem calculate_gradients_direct_components_witness:
  "\<exists>model bx sed_grads morph_grads.
     get_full_model [[2]] [[[0, 1, 2], [3, 4, 5], [6, 7, 8]]] [(1, 1)]
       (shape \<lparr>shape = (1, 3, 3), elems = [[[1, 1, 1], [1, 1, 1], [1, 1, 1]]]\<rparr>) = Inr (model, bx) \<and>
     calculate_gradients_direct \<lparr>shape = (1, 3, 3), elems = [[[1, 1, 1], [1, 1, 1], [1, 1, 1]]]\<rparr>
       [(1, 1)] [[2]] [[[0, 1, 2], [3, 4, 5], [6, 7, 8]]] = Inr (sed_grads, morph_grads) \<and>
     length sed_grads = length [[2::real]] \<and> length morph_grads = length [[2::real]] \<and>
     length (sed_grads ! 0) = 1 \<and>
     (\<forall>c<1. sed_grads ! 0 ! c =
        (\<Sum>i<3. \<Sum>j<3. upstream_at model \<lparr>shape = (1, 3, 3), elems = [[[1, 1, 1], [1, 1, 1], [1, 1, 1]]]\<rparr>
                          1 ([(1, 1)] ! 0) c i j * [[[0, 1, 2], [3, 4, 5], [6, 7, 8]]] ! 0 ! i ! j)) \<and>
     (\<forall>i<3. \<forall>j<3. morph_grads ! 0 ! i ! j =
        (\<Sum>c<1. [[2]] ! 0 ! c * upstream_at model \<lparr>shape = (1, 3, 3), elems = [[[1, 1, 1], [1, 1, 1], [1, 1, 1]]]\<rparr>
                          1 ([(1, 1)] ! 0) c i j))"
  by (rule calculate_gradients_direct_components [where B = 1 and N = 3 and M = 3])
     (simp_all add: wf_ndarray_def is_3x3_def window_inside_def)



text \<open>
  The same scene evaluated: the image is all ones, so the upstream gradient is
  \<open>2 * morph - 1\<close>, the sed gradient is its inner product with the morph and the morph
  gradient is twice the upstream gradient.
\<close>

lemma calculate_gradients_direct_example:
  "calculate_gradients_direct \<lparr>shape = (1, 3, 3), elems = [[[1, 1, 1], [1, 1, 1], [1, 1, 1]]]\<rparr>
     [(1, 1)] [[2]] [[[0, 1, 2], [3, 4, 5], [6, 7, 8]]] =
   Inr ([[372]], [[[- 2, 2, 6], [10, 14, 18], [22, 26, 30]]])"
  by code_simp

subsection \<open>The box of a component\<close>

text \<open>
  Claim C7 (for every center \<open>(y, x)\<close> the box is exactly
  \<open>(slice(y-1, y+2), slice(x-1, x+2))\<close>) against the code, for a center taken from the
  int64 array \<open>centers\<close>: at \<open>y = 2^63 - 1\<close> the sum \<open>y + 2\<close> wraps around, and the
  row slice ends at \<open>-(2^63 - 1)\<close> instead of \<open>2^63 + 1\<close>.
\<close>

theorem get_component_model_int64_wraps:
  "snd (get_component_model_int64 [1] [[0, 0, 0], [0, 1, 0], [0, 0, 0]] (9223372036854775807, 5)) =
     (Slice 9223372036854775806 (- 9223372036854775807), Slice 4 7)
   \<and> sint (9223372036854775807 :: 64 word) + 2 = 9223372036854775809"
  by (simp add: get_component_model_int64_def)

text \<open>
  Claim C7 as amended. For every center \<open>(y, x)\<close> of Python integers, and for every center
  of int64 values with \<open>-2^63 < y, x < 2^63 - 2\<close>, the box computed by
  \<open>get_component_model\<close> is exactly \<open>(slice(y-1, y+2), slice(x-1, x+2))\<close>; for every
  center of either kind it is the same box whatever \<open>sed\<close> and \<open>morph\<close> are.
\<close>

theorem get_component_model_box:
  "snd (get_component_model sed morph (y, x)) = (Slice (y - 1) (y + 2), Slice (x - 1) (x + 2))
   \<and> snd (get_component_model sed morph (y, x)) = snd (get_component_model sed' morph' (y, x))
   \<and> snd (get_component_model_int64 sed morph (v, u)) =
       snd (get_component_model_int64 sed' morph' (v, u))
   \<and> (- (2 ^ 63) < sint v \<and> sint v < 2 ^ 63 - 2 \<and> - (2 ^ 63) < sint u \<and> sint u < 2 ^ 63 - 2 \<longrightarrow>
        snd (get_component_model_int64 sed morph (v, u)) =
          (Slice (sint v - 1) (sint v + 2), Slice (sint u - 1) (sint u + 2)))"
  by (simp add: get_component_model_int64_def get_component_model_def sint64_sub1 sint64_add2)

theorem get_component_model_box_witness:
  "snd (get_component_model_int64 [1] [[0, 0, 0], [0, 1, 0], [0, 0, 0]] (5, 7)) =
     (Slice 4 7, Slice 6 9)"
proof -
  have h: "- (2 ^ 63) < sint (5 :: 64 word) \<and> sint (5 :: 64 word) < 2 ^ 63 - 2 \<and>
           - (2 ^ 63) < sint (7 :: 64 word) \<and> sint (7 :: 64 word) < 2 ^ 63 - 2"
    by simp
  from get_component_model_box [of "[1]" "[[0, 0, 0], [0, 1, 0], [0, 0, 0]]" 0 0 "[1]" "[[0, 0, 0], [0, 1, 0], [0, 0, 0]]" 5 7] h
  have "snd (get_component_model_int64 [1] [[0, 0, 0], [0, 1, 0], [0, 0, 0]] (5, 7)) =
          (Slice (sint (5 :: 64 word) - 1) (sint (5 :: 64 word) + 2),
           Slice (sint (7 :: 64 word) - 1) (sint (7 :: 64 word) + 2))"
    by blast
  then show ?thesis by simp
qed

subsection \<open>The unused model argument\<close>

text \<open>
  Claim C10. The result of \<open>grad_get_component_model\<close> does not depend on its \<open>model\<close>
  argument: any two model arrays give the same result.
\<close>

theorem grad_get_component_model_ignores_model:
  "grad_get_component_model chain_grad m1 sed morph center =
   grad_get_component_model chain_grad m2 sed morph center"
  by (simp add: grad_get_component_model_def)

subsection \<open>Rendering concrete scenes\<close>

text \<open>
  Claim C5. The single component with \<open>sed = [1]\<close>, the 3x3 morph with a single 1 at its
  center, and center \<open>(5, 5)\<close>, rendered into a \<open>(1, 11, 11)\<close> image, gives the image
  that is 1 at pixel \<open>(0, 5, 5)\<close> and 0 at every other pixel.
\<close>

theorem get_full_model_unit_component:
  "get_full_model [[1]] [[[0, 0, 0], [0, 1, 0], [0, 0, 0]]] [(5, 5)] (1, 11, 11) =
     Inr (\<lparr>shape = (1, 11, 11),
           elems = [map (\<lambda>i. map (\<lambda>j. if i = 5 \<and> j = 5 then 1 else 0) [0..<11]) [0..<11]]\<rparr>,
          (Slice 4 7, Slice 4 7))"
  by code_simp

text \<open>
  Claim C3 (rendering zero components yields a zero image) against the code: with empty
  lists the loop body never runs, the local \<open>box\<close> is never bound, and the final
  \<open>return model, box\<close> raises \<open>UnboundLocalError\<close> for every shape.
\<close>

theorem get_full_model_no_components:
  "get_full_model [] [] [] shp = Inl UnboundLocalError"
  by (simp add: get_full_model_def ebind_def)

text \<open>
  Claim C2 (the render returns the image together with the list of boxes used, one per
  component) against the code: for two components with centers \<open>(2, 2)\<close> and \<open>(6, 7)\<close>
  the second component of the result is the single box of the last component, not the list
  \<open>[(slice(1, 4), slice(1, 4)), (slice(5, 8), slice(6, 9))]\<close>.
\<close>

theorem get_full_model_returns_last_box:
  "map_sum id snd
     (get_full_model [[1], [2]]
        [[[0, 0, 0], [0, 1, 0], [0, 0, 0]], [[0, 0, 0], [0, 1, 0], [0, 0, 0]]]
        [(2, 2), (6, 7)] (1, 11, 11)) =
   Inr (Slice 5 8, Slice 6 9)"
  by code_simp

subsection \<open>Malformed components\<close>

text \<open>
  Claim C4 (every sed whose length differs from the channel count and every center whose
  window leaves the image makes render and gradients fail with an error instead of
  truncating the window) against the code. Nothing in the code checks its inputs; what
  happens is what numpy does. In the render a sed of length 1 is broadcast over the two
  channels of the image, and a center at row \<open>-3\<close> selects rows 1 to 3 of a five-row
  image through negative indices. In \<open>grad_get_component_model\<close> the center \<open>(5, 2)\<close> on
  a five-row array leaves a window of the single row 4, which is contracted against all
  three rows of the morph, and a sed of two entries is contracted against the single
  channel of the array. All four calls return normally.
\<close>

theorem malformed_component_silent:
  "get_full_model [[1]] [[[0, 1, 2], [3, 4, 5], [6, 7, 8]]] [(1, 1)] (2, 3, 3) =
     Inr (\<lparr>shape = (2, 3, 3),
           elems = [[[0, 1, 2], [3, 4, 5], [6, 7, 8]], [[0, 1, 2], [3, 4, 5], [6, 7, 8]]]\<rparr>,
          (Slice 0 3, Slice 0 3))
   \<and> get_full_model [[1]] [[[0, 1, 2], [3, 4, 5], [6, 7, 8]]] [(- 3, 1)] (1, 5, 3) =
     Inr (\<lparr>shape = (1, 5, 3),
           elems = [[[0, 0, 0], [0, 1, 2], [3, 4, 5], [6, 7, 8], [0, 0, 0]]]\<rparr>,
          (Slice (- 4) (- 1), Slice 0 3))
   \<and> grad_get_component_model
       \<lparr>shape = (1, 5, 5),
         elems = [[[0, 1, 2, 3, 4], [10, 11, 12, 13, 14], [20, 21, 22, 23, 24],
                   [30, 31, 32, 33, 34], [40, 41, 42, 43, 44]]]\<rparr>
       \<lparr>shape = (1, 5, 5), elems = [replicate 5 (replicate 5 0)]\<rparr>
       [2] [[0, 1, 2], [3, 4, 5], [6, 7, 8]] (5, 2) =
     Inr ([1518], [[82, 84, 86]])
   \<and> grad_get_component_model
       \<lparr>shape = (1, 5, 5),
         elems = [[[0, 1, 2, 3, 4], [10, 11, 12, 13, 14], [20, 21, 22, 23, 24],
                   [30, 31, 32, 33, 34], [40, 41, 42, 43, 44]]]\<rparr>
       \<lparr>shape = (1, 5, 5), elems = [replicate 5 (replicate 5 0)]\<rparr>
       [2, 3] [[0, 1, 2], [3, 4, 5], [6, 7, 8]] (2, 2) =
     Inr ([978], [[55, 60, 65], [105, 110, 115], [155, 160, 165]])"
  by code_simp

text \<open>
  Claim C4 as amended. Let every morph be 3x3, and for a component with center \<open>(y, x)\<close>
  let \<open>r\<close> and \<open>c\<close> be the numbers of rows and columns of the image that
  \<open>slice(y-1, y+2)\<close> and \<open>slice(x-1, x+2)\<close> select. If the sed length is neither the
  channel count nor 1, or \<open>r \<noteq> 3\<close>, or \<open>c \<noteq> 3\<close>, then \<open>get_full_model\<close> and
  \<open>calculate_gradients_direct\<close> raise \<open>ValueError\<close>. \<open>grad_get_component_model\<close> raises
  \<open>ValueError\<close> if \<open>r\<close> or \<open>c\<close> is 0 or 2, or if the sed length and the channel count differ
  and neither is 1; in every other case it returns, also when the window is clipped to one
  row or one column.
\<close>

theorem malformed_component_raises:
  assumes lens: "length morphs = length seds" "length centers = length seds"
    and morphs: "\<forall>i<length seds. is_3x3 (morphs ! i)"
    and sh: "shape images = (B, N, M)" and cg: "shape chain_grad = (B, N, M)"
    and k: "k < length seds"
  shows "(render_rejects (B, N, M) (length (seds ! k)) (centers ! k) \<longrightarrow>
            get_full_model seds morphs centers (shape images) = Inl ValueError \<and>
            calculate_gradients_direct images centers seds morphs = Inl ValueError)
       \<and> (grad_rejects (B, N, M) (length (seds ! k)) (centers ! k) \<longrightarrow>
            grad_get_component_model chain_grad model (seds ! k) (morphs ! k) (centers ! k)
              = Inl ValueError)
       \<and> (\<not> grad_rejects (B, N, M) (length (seds ! k)) (centers ! k) \<longrightarrow>
            (\<exists>g. grad_get_component_model chain_grad model (seds ! k) (morphs ! k) (centers ! k)
              = Inr g))"
proof -
  obtain y x where c: "centers ! k = (y, x)" by (cases "centers ! k")
  from morphs k have m: "is_3x3 (morphs ! k)" by simp
  have render: "get_full_model seds morphs centers (shape images) = Inl ValueError \<and>
            calculate_gradients_direct images centers seds morphs = Inl ValueError"
    if r: "render_rejects (B, N, M) (length (seds ! k)) (centers ! k)"
  proof -
    from r have bad: "(length (seds ! k) \<noteq> B \<and> length (seds ! k) \<noteq> 1) \<or>
                      \<not> axis_window_ok N y \<or> \<not> axis_window_ok M x"
      by (simp add: c render_rejects_bad)
    have "for_range (get_full_model_body seds morphs centers) [0..<length seds]
            (np_zeros (B, N, M), [], None) = Inl ValueError"
      using m k by (intro for_range_bad [OF lens _ _ _ _ c bad]) simp_all
    then have "get_full_model seds morphs centers (shape images) = Inl ValueError"
      by (simp add: get_full_model_def sh)
    then show ?thesis by (simp add: calculate_gradients_direct_def)
  qed
  note g = grad_get_component_model_cases [OF cg m, of "seds ! k" "centers ! k" model]
  show ?thesis using render g by blast
qed

theorem malformed_component_raises_witness:
  "(get_full_model [[1, 2]] [[[0, 1, 2], [3, 4, 5], [6, 7, 8]]] [(0, 1)]
      (shape \<lparr>shape = (2, 3, 3), elems = replicate 2 (replicate 3 (replicate 3 0))\<rparr>) = Inl ValueError \<and>
    calculate_gradients_direct \<lparr>shape = (2, 3, 3), elems = replicate 2 (replicate 3 (replicate 3 0))\<rparr>
      [(0, 1)] [[1, 2]] [[[0, 1, 2], [3, 4, 5], [6, 7, 8]]] = Inl ValueError) \<and>
   grad_get_component_model \<lparr>shape = (2, 3, 3), elems = replicate 2 (replicate 3 (replicate 3 0))\<rparr>
      \<lparr>shape = (2, 3, 3), elems = replicate 2 (replicate 3 (replicate 3 0))\<rparr>
      ([[1, 2]] ! 0) ([[[0, 1, 2], [3, 4, 5], [6, 7, 8]]] ! 0) ([(0, 1)] ! 0) = Inl ValueError \<and>
   (\<exists>g. grad_get_component_model \<lparr>shape = (2, 3, 3), elems = replicate 2 (replicate 3 (replicate 3 0))\<rparr>
      \<lparr>shape = (2, 3, 3), elems = replicate 2 (replicate 3 (replicate 3 0))\<rparr>
      ([[1, 2]] ! 0) ([[[0, 1, 2], [3, 4, 5], [6, 7, 8]]] ! 0) ([(3, 1)] ! 0) = Inr g)"
proof -
  let ?z = "\<lparr>shape = (2, 3, 3), elems = replicate 2 (replicate 3 (replicate 3 0))\<rparr>"
  let ?m = "[[[0, 1, 2], [3, 4, 5], [6, 7, 8]]] :: real list list list"
  have r: "render_rejects (2, 3, 3) (length ([[1, 2]] ! 0 :: real list)) ([(0, 1)] ! 0)"
    by (simp add: render_rejects_def window_len_def slice_bound_def)
  have g: "grad_rejects (2, 3, 3) (length ([[1, 2]] ! 0 :: real list)) ([(0, 1)] ! 0)"
    by (simp add: grad_rejects_def window_len_def slice_bound_def)
  have n: "\<not> grad_rejects (2, 3, 3) (length ([[1, 2]] ! 0 :: real list)) ([(3, 1)] ! 0)"
    by (simp add: grad_rejects_def window_len_def slice_bound_def)
  have a: "length ?m = length [[1, 2 :: real]]" "\<forall>i<length [[1, 2 :: real]]. is_3x3 (?m ! i)"
    "shape ?z = (2, 3, 3)" "0 < length [[1, 2 :: real]]"
    by (simp_all add: is_3x3_def)
  have l1: "length [(0, 1) :: int \<times> int] = length [[1, 2 :: real]]"
    and l2: "length [(3, 1) :: int \<times> int] = length [[1, 2 :: real]]" by simp_all
  note t1 = malformed_component_raises [OF a(1) l1 a(2) a(3) a(3) a(4), of ?z]
  note t2 = malformed_component_raises [OF a(1) l2 a(2) a(3) a(3) a(4), of ?z]
  from t1 r g have "get_full_model [[1, 2]] ?m [(0, 1)] (shape ?z) = Inl ValueError \<and>
    calculate_gradients_direct ?z [(0, 1)] [[1, 2]] ?m = Inl ValueError"
    and "grad_get_component_model ?z ?z ([[1, 2]] ! 0) (?m ! 0) ([(0, 1)] ! 0) = Inl ValueError"
    by blast+
  moreover from t2 n have "\<exists>g. grad_get_component_model ?z ?z ([[1, 2]] ! 0) (?m ! 0) ([(3, 1)] ! 0) = Inr g"
    by blast
  ultimately show ?thesis by blast
qed

subsection \<open>Linearity of rendering\<close>

text \<open>
  Claim C6 (for every two lists \<open>A\<close> and \<open>B\<close> whose windows lie inside the image, the render
  of \<open>A @ B\<close> is the elementwise sum of the renders of \<open>A\<close> and of \<open>B\<close>) against the code:
  with \<open>A\<close> empty and \<open>B\<close> a single component, the renders of \<open>A @ B\<close> and of \<open>B\<close> return
  the same image, but the render of \<open>A\<close> alone raises \<open>UnboundLocalError\<close>, so there is
  no image of \<open>A\<close> to add. For non-empty lists the equation holds
  (lemma \<open>get_full_model_append\<close>).
\<close>

theorem get_full_model_append_empty_raises:
  "get_full_model ([] @ [[1]]) ([] @ [[[0, 1, 2], [3, 4, 5], [6, 7, 8]]]) ([] @ [(1, 1)]) (1, 3, 3) =
     Inr (\<lparr>shape = (1, 3, 3), elems = [[[0, 1, 2], [3, 4, 5], [6, 7, 8]]]\<rparr>, (Slice 0 3, Slice 0 3))
   \<and> get_full_model [[1]] [[[0, 1, 2], [3, 4, 5], [6, 7, 8]]] [(1, 1)] (1, 3, 3) =
     Inr (\<lparr>shape = (1, 3, 3), elems = [[[0, 1, 2], [3, 4, 5], [6, 7, 8]]]\<rparr>, (Slice 0 3, Slice 0 3))
   \<and> get_full_model [] [] [] (1, 3, 3) = Inl UnboundLocalError"
  by code_simp

subsection \<open>The margin kept by the scene builder\<close>

text \<open>
  Claim C8. For every shape \<open>(B, N, M)\<close> with \<open>N > 8\<close> and \<open>M > 8\<close>, every component count
  \<open>K\<close> and every state of the random generator, \<open>build_scene\<close> returns, and every
  center \<open>(cy, cx)\<close> it returns satisfies \<open>4 \<le> cy \<le> N - 5\<close> and \<open>4 \<le> cx \<le> M - 5\<close>, so
  that every 3x3 window lies inside the image.
\<close>

theorem build_scene_centers_margin:
  assumes N: "8 < N" and M: "8 < M"
  shows "\<exists>images centers seds morphs g'.
     build_scene (B, N, M) K g = Inr ((images, centers, seds, morphs), g') \<and>
     length centers = K \<and>
     (\<forall>center\<in>set centers. center_margin (B, N, M) center \<and> window_inside (B, N, M) center)"
proof -
  let ?v = "[[0, 1, 2], [3, 4, 5], [6, 7, 8]] :: real list list"
  from morphs_loop [of ?v K "[[0, 0, 0], [0, 1, 0], [0, 0, 0]]"] obtain morphs where
    ml: "for_range (\<lambda>k ms. py_set ms k ?v) [0..<K] (replicate K [[0, 0, 0], [0, 1, 0], [0, 0, 0]]) = Inr morphs"
    and mlen: "length morphs = K" and mv: "\<forall>i<K. morphs ! i = ?v" by blast
  have m3: "is_3x3 (morphs ! k)" if "k < K" for k
    using mv that by (simp add: is_3x3_def)
  let ?I = "\<lambda>k st. case st of (g', images, centers, seds) \<Rightarrow>
      shape images = (B, N, M) \<and> length centers = K \<and> length seds = K \<and>
      (\<forall>i<k. center_margin (B, N, M) (centers ! i))"
  have "\<exists>s'. for_range (build_scene_body B morphs) [0..<K]
                (g, np_zeros (B, N, M), replicate K (0, 0), replicate K (replicate B 0)) = Inr s'
          \<and> ?I K s'"
  proof (rule for_range_upt_inv [where I = ?I])
    show "?I 0 (g, np_zeros (B, N, M), replicate K (0, 0), replicate K (replicate B 0))" by simp
    show "0 \<le> K" by simp
    fix k and st :: scene_state assume k: "0 \<le> k" "k < K" and I: "?I k st"
    obtain g0 images centers seds where st: "st = (g0, images, centers, seds)" by (cases st)
    from I st have inv: "shape images = (B, N, M)" "length centers = K" "length seds = K"
      "\<forall>i<k. center_margin (B, N, M) (centers ! i)" by auto
    from build_scene_body_ok [OF N M k(2) inv(1) inv(2) inv(3) mlen m3 [OF k(2)], of g0]
    obtain g' images' center sed where
      r: "build_scene_body B morphs k (g0, images, centers, seds) =
            Inr (g', images', centers[k := center], seds[k := sed])"
      and p: "shape images' = (B, N, M)" "center_margin (B, N, M) center" by blast
    have "?I (Suc k) (g', images', centers[k := center], seds[k := sed])"
      using p inv k(2) by (auto simp: nth_list_update less_Suc_eq)
    then show "\<exists>s'. build_scene_body B morphs k st = Inr s' \<and> ?I (Suc k) s'"
      unfolding st using r by blast
  qed
  then obtain s' where
    r0: "for_range (build_scene_body B morphs) [0..<K]
                (g, np_zeros (B, N, M), replicate K (0, 0), replicate K (replicate B 0)) = Inr s'"
    and I0: "?I K s'" by blast
  obtain g' images centers seds where s': "s' = (g', images, centers, seds)" by (cases s')
  from I0 s' have len: "length centers = K" and cm: "\<forall>i<K. center_margin (B, N, M) (centers ! i)"
    by auto
  have "build_scene (B, N, M) K g = Inr ((images, centers, seds, morphs), g')"
    by (simp add: build_scene_def ml r0 [unfolded s'])
  moreover have "center_margin (B, N, M) center \<and> window_inside (B, N, M) center"
    if "center \<in> set centers" for center
  proof -
    from that len cm have c: "center_margin (B, N, M) center"
      by (auto simp: in_set_conv_nth)
    then show ?thesis
      by (cases center) (simp add: center_margin_def window_inside_def)
  qed
  ultimately show ?thesis using len by blast
qed

theorem build_scene_centers_margin_witness:
  "\<exists>images centers seds morphs g'.
     build_scene (3, 9, 10) 2 (\<lambda>i. 7 * i + 3) = Inr ((images, centers, seds, morphs), g') \<and>
     length centers = 2 \<and>
     (\<forall>center\<in>set centers. center_margin (3, 9, 10) center \<and> window_inside (3, 9, 10) center)"
  by (rule build_scene_centers_margin) simp_all

subsection \<open>The inputs of the gradient evaluation are not written to\<close>

text \<open>
  Claim C9. For every store and every four arguments \<open>images\<close>, \<open>centers\<close>, \<open>seds\<close>,
  \<open>morphs\<close>, after \<open>calculate_gradients_direct\<close> has run (returned or raised) every object
  that was in the store before the call, in particular each of the four input arrays, is
  unchanged: the final store is the initial one followed by the newly allocated arrays.
\<close>

theorem calculate_gradients_direct_h_frame:
  "take (length h) (snd (calculate_gradients_direct_h images centers seds morphs h)) = h"
proof -
  let ?h' = "snd (calculate_gradients_direct_h images centers seds morphs h)"
  note k = calculate_gradients_direct_h_keeps [of h images centers seds morphs]
  have "take (length h) ?h' = take (length h) h"
    using k by (intro nth_take_lemma) simp_all
  then show ?thesis by simp
qed

theorem calculate_gradients_direct_h_frame_witness:
  "take 4 (snd (calculate_gradients_direct_h 0 1 2 3
          [Array3 \<lparr>shape = (1, 3, 3), elems = [[[1, 1, 1], [1, 1, 1], [1, 1, 1]]]\<rparr>,
           CenterArray [(1, 1)], SedArray [[2]], MorphArray [[[0, 1, 2], [3, 4, 5], [6, 7, 8]]]])) =
     [Array3 \<lparr>shape = (1, 3, 3), elems = [[[1, 1, 1], [1, 1, 1], [1, 1, 1]]]\<rparr>,
      CenterArray [(1, 1)], SedArray [[2]], MorphArray [[[0, 1, 2], [3, 4, 5], [6, 7, 8]]]]"
  using calculate_gradients_direct_h_frame [of
          "[Array3 \<lparr>shape = (1, 3, 3), elems = [[[1, 1, 1], [1, 1, 1], [1, 1, 1]]]\<rparr>,
           CenterArray [(1, 1)], SedArray [[2]], MorphArray [[[0, 1, 2], [3, 4, 5], [6, 7, 8]]]]" 0 1 2 3]
  by (simp add: numeral_eq_Suc)

end
